theory Spec2Isabelle
  imports Main "HOL-Library.Word"
begin

unbundle bit_operations_syntax

section \<open>The hazard-validation harness of main.cpp\<close>

text \<open>
  The host program negotiates a GPU device, allocates five buffers, runs an init and a
  stress kernel once per trial and decodes the error telemetry the stress kernel wrote.
  The device is opaque: everything it answers (whether a handle is obtained, when a
  completion callback fires and with which status, what the kernels wrote) is an input of
  the model. Everything the host does is translated function by function, with the
  names of the source.

  Host state is one record (\<open>world\<close>): the contents of the GPU buffers as 32-bit words,
  the lines written to standard output and standard error, and the device calls issued so
  far, in order.
\<close>

type_synonym u32 = "32 word"

subsection \<open>The protocol constants (main.cpp, lines 374--380)\<close>

definition FLAG_NOT_READY :: u32 where "FLAG_NOT_READY = 0"
definition FLAG_READY :: u32 where "FLAG_READY = 0x40000000"
definition FLAG_INCLUSIVE :: u32 where "FLAG_INCLUSIVE = 0x80000000"
definition VALUE_MASK :: u32 where "VALUE_MASK = 0xFFFF"
definition SPLIT_THREADS :: u32 where "SPLIT_THREADS = 2"
definition ERROR_TYPE_MESSAGE :: u32 where "ERROR_TYPE_MESSAGE = 1"
definition ERROR_TYPE_SHUFFLE :: u32 where "ERROR_TYPE_SHUFFLE = 2"

subsection \<open>Console output\<close>

text \<open>
  A line of standard output is kept as the format that was printed together with its
  arguments, in the order the source passes them to \<open>printf\<close>.

  \<open>MessagePassing tile_id tid got FLAG_NOT_READY expected val_content VALUE_MASK
  FLAG_INCLUSIVE\<close> is the first \<open>printf\<close> of \<open>CheckError\<close>. The two values computed
  from \<open>1024u >> (tid * 16u)\<close> are optional: C++ leaves a 32-bit shift by 32 or more
  undefined, so they are \<open>None\<close> there.
\<close>

datatype out_line =
    MessagePassing u32 u32 u32 u32 "u32 option" "u32 option" u32 u32
  | Shuffle u32 u32 u32
  | UnknownCode u32 u32 u32 u32
  | AdapterInfo
  | Summary u32 u32
  | ALL_TESTS_PASSED
  | TEST_FAILED

datatype err_line =
    Usage string
  | ExpectedTestSize
  | ExpectedTestCount
  | InstanceCreationFailed
  | FailedToGetAdapter
  | FailedToGetDevice
  | FailedToOpenFile string
  | ShaderCompilationError string
  | ShaderCompilationWarning string
  | QueueSubmissionFailed
  | BadReadback
  | DeviceError

subsection \<open>CheckError (main.cpp, lines 382--416)\<close>

text \<open>\<open>a >> n\<close> on \<open>uint32_t\<close>: defined for \<open>n < 32\<close> only.\<close>

definition shr32 :: "u32 \<Rightarrow> u32 \<Rightarrow> u32 option" where
  "shr32 a n = (if unat n < 32 then Some (drop_bit (unat n) a) else None)"

text \<open>
  \<open>CheckError\<close> returns its boolean and the lines it printed. \<open>!errCode\<close> is
  \<open>errCode = 0\<close>; every other branch prints one diagnostic and returns \<open>false\<close>.
\<close>

definition CheckError :: "u32 \<Rightarrow> u32 \<Rightarrow> u32 \<Rightarrow> u32 \<Rightarrow> bool \<times> out_line list" where
  "CheckError errCode got tile_id tid =
    (if errCode = 0 then (True, [])
     else if errCode = ERROR_TYPE_MESSAGE then
       (let val_content_for_ready_state =
              map_option (\<lambda>v. v AND VALUE_MASK) (shr32 1024 (tid * 16));
            expected_full_value_for_ready_state =
              map_option (\<lambda>v. v OR FLAG_READY) val_content_for_ready_state
        in (False, [MessagePassing tile_id tid got FLAG_NOT_READY
                      expected_full_value_for_ready_state val_content_for_ready_state
                      VALUE_MASK FLAG_INCLUSIVE]))
     else if errCode = ERROR_TYPE_SHUFFLE then (False, [Shuffle tile_id tid got])
     else (False, [UnknownCode errCode tile_id tid got]))"

subsection \<open>The device as an environment\<close>

text \<open>
  Every asynchronous device operation is answered by a callback that runs inside a call
  of \<open>ProcessEvents\<close>. \<open>Fires n st\<close>: the callback runs, with status \<open>st\<close>, in the
  call of \<open>ProcessEvents\<close> that follows \<open>n\<close> calls in which nothing happened.
  \<open>Never\<close>: the device stalls and the callback never runs.
\<close>

datatype 'a reply = Fires nat 'a | Never

text \<open>
  The polling loop shared by \<open>GetGPUContext\<close>, \<open>CreateShaderFromSource\<close>,
  \<open>QueueSync\<close> and \<open>ReadbackSync\<close>:
  \<^verbatim>\<open>while (future.wait_for(100ns) == std::future_status::timeout) ProcessEvents();\<close>
  It has no timeout, so it is a partial function: \<open>None\<close> when it never exits,
  otherwise the status the callback was given.
\<close>

partial_function (option) await :: "'a reply \<Rightarrow> 'a option" where
  "await r = (case r of
      Never \<Rightarrow> await Never
    | Fires n st \<Rightarrow> (if n = 0 then Some st else await (Fires (n - 1) st)))"

text \<open>
  What can keep a function of the host from returning: a polling loop that never exits,
  the use of a null handle (a failed negotiation leaves the handle null and the source
  goes on to call through it), an access outside a \<open>std::vector\<close>.
\<close>

datatype fault = Diverges | NullHandle | OutOfBounds

datatype buffer_id = Info | ScanBump | Scan | Readback | Err

datatype kernel = Init | Stress

text \<open>The device calls the host issues; offsets and sizes in bytes, as in the source.\<close>

datatype gpu_call =
    CreateInstance
  | RequestAdapter
  | RequestDevice
  | CreateBuffer buffer_id nat
  | CreateShaderModule kernel
  | CreateComputePipeline kernel
  | WriteBuffer buffer_id nat "u32 list"
  | SubmitNothing
  | SubmitDispatches "(kernel \<times> u32) list"
  | CopyBufferToBuffer buffer_id nat buffer_id nat nat
  | MapAsync buffer_id nat nat
  | Unmap buffer_id

record world =
  w_mem :: "buffer_id \<Rightarrow> u32 list"
  w_stdout :: "out_line list"
  w_stderr :: "err_line list"
  w_calls :: "gpu_call list"

definition print_out :: "out_line list \<Rightarrow> world \<Rightarrow> world" where
  "print_out ls w = w\<lparr>w_stdout := w_stdout w @ ls\<rparr>"

definition print_err :: "err_line list \<Rightarrow> world \<Rightarrow> world" where
  "print_err ls w = w\<lparr>w_stderr := w_stderr w @ ls\<rparr>"

definition issue :: "gpu_call list \<Rightarrow> world \<Rightarrow> world" where
  "issue cs w = w\<lparr>w_calls := w_calls w @ cs\<rparr>"

subsection \<open>QueueSync and CopyBufferSync (main.cpp, lines 304--329)\<close>

text \<open>
  \<open>QueueSync\<close> polls until the queue reports the submitted work done; a status other
  than success is logged and nothing else.
\<close>

definition QueueSync :: "bool reply \<Rightarrow> world \<Rightarrow> fault + world" where
  "QueueSync done w =
    (case await done of
       None \<Rightarrow> Inl Diverges
     | Some success \<Rightarrow> Inr (if success then w else print_err [QueueSubmissionFailed] w))"

text \<open>
  What the device does with a submitted buffer-to-buffer copy, in words: it copies \<open>n\<close>
  words from offset \<open>off\<close> of the source to offset 0 of the destination. A copy that
  does not fit its source or its destination, or copies a buffer to itself, is a
  validation error: nothing is copied and the uncaptured-error callback prints.
\<close>

definition copy_words :: "u32 list \<Rightarrow> nat \<Rightarrow> u32 list \<Rightarrow> nat \<Rightarrow> u32 list option" where
  "copy_words src off dst n =
    (if off + n \<le> length src \<and> n \<le> length dst
     then Some (take n (drop off src) @ drop n dst) else None)"

definition device_copy :: "buffer_id \<Rightarrow> nat \<Rightarrow> buffer_id \<Rightarrow> nat \<Rightarrow> world \<Rightarrow> world" where
  "device_copy src off_bytes dst n_bytes w =
    (if src = dst then print_err [DeviceError] w
     else case copy_words (w_mem w src) (off_bytes div 4) (w_mem w dst) (n_bytes div 4) of
       None \<Rightarrow> print_err [DeviceError] w
     | Some ws \<Rightarrow> w\<lparr>w_mem := (w_mem w)(dst := ws)\<rparr>)"

definition CopyBufferSync ::
  "bool reply \<Rightarrow> world \<Rightarrow> buffer_id \<Rightarrow> buffer_id \<Rightarrow> nat \<Rightarrow> nat \<Rightarrow> fault + world" where
  "CopyBufferSync done w srcReadback dstReadback sourceOffsetBytes copySizeBytes =
    QueueSync done
      (device_copy srcReadback sourceOffsetBytes dstReadback copySizeBytes
        (issue [CopyBufferToBuffer srcReadback sourceOffsetBytes dstReadback 0 copySizeBytes] w))"

subsection \<open>ReadbackSync and CopyAndReadbackSync (main.cpp, lines 331--361)\<close>

text \<open>
  \<open>std::memcpy(readOut->data(), data, readbackSizeBytes)\<close>, in words: \<open>n\<close> words of the
  mapped range overwrite the first \<open>n\<close> words of the vector. It is undefined when the
  vector or the mapped range is shorter than \<open>n\<close> words.
\<close>

definition memcpy_words :: "u32 list \<Rightarrow> u32 list \<Rightarrow> nat \<Rightarrow> u32 list option" where
  "memcpy_words dst src n =
    (if n \<le> length dst \<and> n \<le> length src then Some (take n src @ drop n dst) else None)"

text \<open>
  \<open>ReadbackSync\<close> asks to map the staging buffer and polls until the map callback has
  run. On success the callback copies the mapped words into \<open>readOut\<close> and unmaps; on
  any other status it prints \<open>Bad readback\<close> and touches nothing. The vector is passed
  by pointer in the source; here it is passed in and returned.
\<close>

definition ReadbackSync ::
  "bool reply \<Rightarrow> world \<Rightarrow> buffer_id \<Rightarrow> u32 list \<Rightarrow> nat \<Rightarrow> fault + (u32 list \<times> world)" where
  "ReadbackSync mapped w dstReadback readOut readbackSizeBytes =
    (let w1 = issue [MapAsync dstReadback 0 readbackSizeBytes] w in
     case await mapped of
       None \<Rightarrow> Inl Diverges
     | Some success \<Rightarrow>
         if success then
           (case memcpy_words readOut (w_mem w1 dstReadback) (readbackSizeBytes div 4) of
              None \<Rightarrow> Inl OutOfBounds
            | Some readOut' \<Rightarrow> Inr (readOut', issue [Unmap dstReadback] w1))
         else Inr (readOut, print_err [BadReadback] w1))"

text \<open>\<open>sizeof(T)\<close> is 4; the products are computed in 64 bits and cannot wrap.\<close>

definition CopyAndReadbackSync ::
  "bool reply \<Rightarrow> bool reply \<Rightarrow> world \<Rightarrow> buffer_id \<Rightarrow> buffer_id \<Rightarrow> u32 list \<Rightarrow> u32 \<Rightarrow> u32
    \<Rightarrow> fault + (u32 list \<times> world)" where
  "CopyAndReadbackSync copied mapped w srcReadback dstReadback readOut sourceOffset readbackSize =
    (case CopyBufferSync copied w srcReadback dstReadback
            (unat sourceOffset * 4) (unat readbackSize * 4) of
       Inl f \<Rightarrow> Inl f
     | Inr w1 \<Rightarrow> ReadbackSync mapped w1 dstReadback readOut (unat readbackSize * 4))"

subsection \<open>Validate (main.cpp, lines 418--435)\<close>

text \<open>\<open>readOut[i]\<close> on a \<open>std::vector\<close>: undefined outside the vector.\<close>

definition vec_at :: "u32 list \<Rightarrow> u32 \<Rightarrow> u32 option" where
  "vec_at v i = (if unat i < length v then Some (v ! unat i) else None)"

text \<open>A loop counter below its bound does not wrap when it is incremented.\<close>

lemma unat_increment: "(i :: u32) < b \<Longrightarrow> unat (i + 1) = Suc (unat i)"
proof -
  assume "i < b"
  then have "unat i < unat b" by (simp add: word_less_nat_alt)
  moreover have "unat b < 2 ^ 32" using unsigned_less [of b, where ?'a = nat] by simp
  ultimately have "unat i + 1 < 2 ^ 32" by simp
  then show ?thesis by (simp add: unat_word_ariths)
qed

lemma loop_measure_decreases: "(i :: u32) < b \<Longrightarrow> unat b - unat (i + 1) < unat b - unat i"
  by (simp add: unat_increment word_less_nat_alt)

text \<open>
  The inner loop, over the thread slots of one tile. \<open>Inr (False, _)\<close> is the
  \<open>return false\<close> that leaves \<open>Validate\<close>; \<open>Inr (True, _)\<close> is the end of the loop.
\<close>

function Validate_threads ::
  "u32 list \<Rightarrow> u32 \<Rightarrow> u32 \<Rightarrow> u32 \<Rightarrow> world \<Rightarrow> fault + (bool \<times> world)" where
  "Validate_threads readOut tile_id t tid w =
    (if tid < SPLIT_THREADS then
       (case vec_at readOut (t + tid * 2) of
          None \<Rightarrow> Inl OutOfBounds
        | Some errCode \<Rightarrow>
            (case vec_at readOut (t + tid * 2 + 1) of
               None \<Rightarrow> Inl OutOfBounds
             | Some got_val \<Rightarrow>
                 (case CheckError errCode got_val tile_id tid of
                    (ok, printed) \<Rightarrow>
                      if \<not> ok then Inr (False, print_out printed w)
                      else Validate_threads readOut tile_id t (tid + 1) (print_out printed w))))
     else Inr (True, w))"
  by pat_completeness auto
termination
  by (relation "measure (\<lambda>(readOut, tile_id, t, tid, w). unat SPLIT_THREADS - unat tid)")
     (simp_all add: loop_measure_decreases)

declare Validate_threads.simps [simp del]

text \<open>The outer loop, over the tiles.\<close>

function Validate_tiles :: "u32 list \<Rightarrow> u32 \<Rightarrow> u32 \<Rightarrow> world \<Rightarrow> fault + (bool \<times> world)" where
  "Validate_tiles readOut size' tile_id w =
    (if tile_id < size' then
       (let t = tile_id * SPLIT_THREADS * 2 in
        case Validate_threads readOut tile_id t 0 w of
          Inl f \<Rightarrow> Inl f
        | Inr (ok, w') \<Rightarrow>
            if ok then Validate_tiles readOut size' (tile_id + 1) w' else Inr (False, w'))
     else Inr (True, w))"
  by pat_completeness auto
termination
  by (relation "measure (\<lambda>(readOut, size', tile_id, w). unat size' - unat tile_id)")
     (simp_all add: loop_measure_decreases)

declare Validate_tiles.simps [simp del]

text \<open>
  \<open>std::vector<uint32_t> readOut(size * SPLIT_THREADS * 2)\<close> is zero-initialised; its
  length is computed in 32 bits. \<open>readOut.size()\<close> is passed as a \<open>uint32_t\<close>.
\<close>

definition Validate :: "bool reply \<Rightarrow> bool reply \<Rightarrow> world \<Rightarrow> u32 \<Rightarrow> fault + (bool \<times> world)" where
  "Validate copied mapped w size' =
    (if size' = 0 then Inr (True, w)
     else
       (let readOut = replicate (unat (size' * SPLIT_THREADS * 2)) (0 :: u32) in
        case CopyAndReadbackSync copied mapped w Err Readback readOut 0
               (word_of_nat (length readOut)) of
          Inl f \<Rightarrow> Inl f
        | Inr (readOut', w1) \<Rightarrow> Validate_tiles readOut' size' 0 w1))"

subsection \<open>RunTest (main.cpp, lines 453--473)\<close>

text \<open>
  What the device answers during one trial: the words the stress kernel leaves in the
  error, scan and bump buffers, and the three completions the host waits for (the
  dispatch, the copy into the staging buffer, the map of the staging buffer).
\<close>

record trial =
  t_telemetry :: "u32 list"
  t_scan :: "u32 list"
  t_bump :: "u32 list"
  t_dispatched :: "bool reply"
  t_copied :: "bool reply"
  t_mapped :: "bool reply"

text \<open>A kernel writes into a buffer; it cannot change the buffer's size.\<close>

definition overwrite :: "u32 list \<Rightarrow> u32 list \<Rightarrow> u32 list" where
  "overwrite new old = take (length old) (new @ drop (length new) old)"

definition device_dispatch :: "trial \<Rightarrow> world \<Rightarrow> world" where
  "device_dispatch e w =
    w\<lparr>w_mem := (w_mem w)
      (Err := overwrite (t_telemetry e) (w_mem w Err),
       Scan := overwrite (t_scan e) (w_mem w Scan),
       ScanBump := overwrite (t_bump e) (w_mem w ScanBump))\<rparr>"

text \<open>
  The loop of \<open>RunTest\<close>, with its counter \<open>i\<close> and the running \<open>testsPassed\<close>. Both
  dispatches go into one command buffer, submitted once; \<open>Validate\<close> runs whatever the
  earlier trials returned.
\<close>

function RunTest_loop ::
  "(nat \<Rightarrow> trial) \<Rightarrow> u32 \<Rightarrow> u32 \<Rightarrow> u32 \<Rightarrow> u32 \<Rightarrow> world \<Rightarrow> fault + (u32 \<times> world)" where
  "RunTest_loop trials size' batchSize i testsPassed w =
    (if i < batchSize then
       (let e = trials (unat i);
            w1 = device_dispatch e (issue [SubmitDispatches [(Init, 256), (Stress, size')]] w)
        in case QueueSync (t_dispatched e) w1 of
             Inl f \<Rightarrow> Inl f
           | Inr w2 \<Rightarrow>
               (case Validate (t_copied e) (t_mapped e) w2 size' of
                  Inl f \<Rightarrow> Inl f
                | Inr (ok, w3) \<Rightarrow>
                    RunTest_loop trials size' batchSize (i + 1)
                      (testsPassed + (if ok then 1 else 0)) w3))
     else Inr (testsPassed, w))"
  by pat_completeness auto
termination
  by (relation "measure (\<lambda>(trials, size', batchSize, i, testsPassed, w). unat batchSize - unat i)")
     (simp_all add: loop_measure_decreases)

declare RunTest_loop.simps [simp del]

definition RunTest :: "(nat \<Rightarrow> trial) \<Rightarrow> u32 \<Rightarrow> u32 \<Rightarrow> world \<Rightarrow> fault + world" where
  "RunTest trials size' batchSize w =
    (case RunTest_loop trials size' batchSize 0 0 w of
       Inl f \<Rightarrow> Inl f
     | Inr (testsPassed, w1) \<Rightarrow>
         Inr (print_out [Summary testsPassed batchSize,
                         if testsPassed = batchSize then ALL_TESTS_PASSED else TEST_FAILED] w1))"

subsection \<open>parse (main.cpp, lines 475--484)\<close>

text \<open>
  \<open>std::strtoul(arg_str, &endptr, 10)\<close> is the C library's. It is modelled from the C
  standard, for base 10 and a 64-bit \<open>unsigned long\<close>: white space is skipped, one sign
  is accepted, then the longest run of decimal digits is converted. With no digit there is
  no conversion and \<open>endptr\<close> is the argument itself. A value above \<open>ULONG_MAX\<close> gives
  \<open>ULONG_MAX\<close> and \<open>ERANGE\<close>; a minus sign negates the value in \<open>unsigned long\<close>.
  A C string is the characters before its terminating NUL.
\<close>

definition isspace :: "char \<Rightarrow> bool" where
  "isspace c = (c = CHR '' '' \<or> c = CHR 0x09 \<or> c = CHR 0x0A \<or> c = CHR 0x0B \<or>
                c = CHR 0x0C \<or> c = CHR 0x0D)"

definition isdigit :: "char \<Rightarrow> bool" where
  "isdigit c = (48 \<le> (of_char c :: nat) \<and> (of_char c :: nat) \<le> 57)"

definition digit_value :: "char \<Rightarrow> nat" where
  "digit_value c = of_char c - 48"

definition decimal :: "string \<Rightarrow> nat" where
  "decimal ds = foldl (\<lambda>acc c. acc * 10 + digit_value c) 0 ds"

definition ULONG_MAX :: nat where
  "ULONG_MAX = 2 ^ 64 - 1"

text \<open>\<open>Converted t endptr erange\<close>: the value, what \<open>endptr\<close> points to, and whether
  \<open>errno\<close> is \<open>ERANGE\<close>. \<open>NoConversion\<close>: \<open>endptr == arg_str\<close>.\<close>

datatype strtoul_result = NoConversion | Converted nat string bool

definition strtoul :: "string \<Rightarrow> strtoul_result" where
  "strtoul nptr =
    (let s = dropWhile isspace nptr;
         negative = (s \<noteq> [] \<and> hd s = CHR ''-'');
         s' = (if s \<noteq> [] \<and> (hd s = CHR ''+'' \<or> hd s = CHR ''-'') then tl s else s);
         ds = takeWhile isdigit s';
         endptr = dropWhile isdigit s'
     in if ds = [] then NoConversion
        else if ULONG_MAX < decimal ds then Converted ULONG_MAX endptr True
        else Converted (if negative then (ULONG_MAX + 1 - decimal ds) mod (ULONG_MAX + 1)
                        else decimal ds) endptr False)"

text \<open>
  \<open>parse\<close> returns \<open>false\<close> and leaves \<open>o\<close> alone (\<open>None\<close>), or stores the value in
  \<open>o\<close> and returns \<open>true\<close> (\<open>Some\<close>).
\<close>

definition parse :: "string \<Rightarrow> u32 \<Rightarrow> u32 option" where
  "parse arg_str exclMax =
    (case strtoul arg_str of
       NoConversion \<Rightarrow> None
     | Converted t endptr erange \<Rightarrow>
         if erange \<or> endptr \<noteq> [] \<or> unat exclMax < t then None
         else Some (word_of_nat t))"

text \<open>
  What \<open>strtoul\<close> makes of an argument. It converts the whole of it when the argument
  is optional white space, an optional sign and one or more decimal digits, with nothing
  after them. Such an argument is an unsigned numeral when the sign is absent or \<open>+\<close>,
  and a negated numeral when the sign is \<open>-\<close>. \<open>refused bound s\<close> lists the arguments
  \<open>parse\<close> turns down for a bound: those not converted as a whole, the unsigned
  numerals above the bound, and the negated numerals that are out of range or whose
  negation in \<open>unsigned long\<close> is above the bound.
\<close>

definition whole_numeral :: "string \<Rightarrow> bool" where
  "whole_numeral s =
    (let r = dropWhile isspace s;
         ds = (if r \<noteq> [] \<and> (hd r = CHR ''+'' \<or> hd r = CHR ''-'') then tl r else r)
     in ds \<noteq> [] \<and> list_all isdigit ds)"

definition unsigned_numeral :: "string \<Rightarrow> nat option" where
  "unsigned_numeral s =
    (let r = dropWhile isspace s;
         ds = (if r \<noteq> [] \<and> hd r = CHR ''+'' then tl r else r)
     in if ds \<noteq> [] \<and> list_all isdigit ds then Some (decimal ds) else None)"

definition negated_numeral :: "string \<Rightarrow> nat option" where
  "negated_numeral s =
    (let r = dropWhile isspace s
     in if r \<noteq> [] \<and> hd r = CHR ''-'' \<and> tl r \<noteq> [] \<and> list_all isdigit (tl r)
        then Some (decimal (tl r)) else None)"

definition refused :: "nat \<Rightarrow> string \<Rightarrow> bool" where
  "refused bound s =
    (\<not> whole_numeral s \<or>
     (case unsigned_numeral s of Some v \<Rightarrow> bound < v | None \<Rightarrow> False) \<or>
     (case negated_numeral s of
        Some v \<Rightarrow> ULONG_MAX < v \<or> bound < (ULONG_MAX + 1 - v) mod (ULONG_MAX + 1)
      | None \<Rightarrow> False))"

subsection \<open>Device negotiation, buffers, pipelines (main.cpp, lines 38--372)\<close>

datatype message_type = Error | Warning | Info_message

record shader_source =
  s_opens :: bool
  s_compiled :: "(message_type \<times> string) list reply"

text \<open>
  What the device answers over a whole run: whether an instance is created, the status
  of the adapter and of the device request, for each kernel whether its file opens and
  which compilation messages arrive, the completion of the empty submission of
  \<open>InitializeUniforms\<close>, and the trials.
\<close>

record device =
  d_instance :: bool
  d_adapter :: "bool reply"
  d_device :: "bool reply"
  d_init :: shader_source
  d_stress :: shader_source
  d_uniforms :: "bool reply"
  d_trials :: "nat \<Rightarrow> trial"

definition initial_world :: world where
  "initial_world = \<lparr>w_mem = (\<lambda>b. []), w_stdout = [], w_stderr = [], w_calls = []\<rparr>"

text \<open>
  \<open>GetGPUContext\<close> logs a failed negotiation and goes on: with no instance it calls
  \<open>RequestAdapter\<close> on the null instance, with no adapter \<open>GetInfo\<close> on the null
  adapter, with no device \<open>GetQueue\<close> on the null device.
\<close>

definition GetGPUContext :: "device \<Rightarrow> world \<Rightarrow> fault + world" where
  "GetGPUContext env w =
    (let w1 = issue [CreateInstance] w in
     if \<not> d_instance env then Inl NullHandle
     else
       (let w2 = issue [RequestAdapter] w1 in
        case await (d_adapter env) of
          None \<Rightarrow> Inl Diverges
        | Some adapted \<Rightarrow>
            if \<not> adapted then Inl NullHandle
            else
              (let w3 = issue [RequestDevice] (print_out [AdapterInfo] w2) in
               case await (d_device env) of
                 None \<Rightarrow> Inl Diverges
               | Some granted \<Rightarrow> if \<not> granted then Inl NullHandle else Inr w3)))"

text \<open>
  \<open>GetGPUBuffers\<close>: five buffers, their sizes in bytes computed in 64 bits. A new
  buffer holds zeros.
\<close>

definition buffer_words :: "u32 \<Rightarrow> buffer_id \<Rightarrow> nat" where
  "buffer_words size' b =
    (case b of Info \<Rightarrow> 4 | ScanBump \<Rightarrow> 1 | Scan \<Rightarrow> unat size' * 2
     | Readback \<Rightarrow> unat size' * 4 | Err \<Rightarrow> unat size' * 4)"

definition GetGPUBuffers :: "world \<Rightarrow> u32 \<Rightarrow> world" where
  "GetGPUBuffers w size' =
    (issue (map (\<lambda>b. CreateBuffer b (4 * buffer_words size' b))
              [Info, ScanBump, Scan, Readback, Err]) w)
      \<lparr>w_mem := (\<lambda>b. replicate (buffer_words size' b) 0)\<rparr>"

text \<open>
  The state has the buffers \<open>GetGPUBuffers\<close> creates for a test size: these are
  their lengths in words. The buffers are never resized.
\<close>

definition allocated :: "u32 \<Rightarrow> world \<Rightarrow> bool" where
  "allocated size' w =
    (length (w_mem w Info) = 4 \<and> length (w_mem w ScanBump) = 1 \<and>
     length (w_mem w Scan) = 2 * unat size' \<and>
     length (w_mem w Readback) = 4 * unat size' \<and>
     length (w_mem w Err) = 4 * unat size')"

definition shader_path :: "kernel \<Rightarrow> string" where
  "shader_path k = (case k of Init \<Rightarrow> ''Shaders/init.wgsl'' | Stress \<Rightarrow> ''Shaders/stress.wgsl'')"

definition compilation_log :: "(message_type \<times> string) list \<Rightarrow> err_line list" where
  "compilation_log msgs =
    concat (map (\<lambda>(ty, text). case ty of
                   Error \<Rightarrow> [ShaderCompilationError text]
                 | Warning \<Rightarrow> [ShaderCompilationWarning text]
                 | Info_message \<Rightarrow> []) msgs)"

text \<open>
  \<open>CreateShaderFromSource\<close>: a file that does not open is logged and compiled as the
  empty source; compilation errors and warnings are logged; the pipeline is built in
  every case.
\<close>

definition CreateShaderFromSource :: "shader_source \<Rightarrow> world \<Rightarrow> kernel \<Rightarrow> fault + world" where
  "CreateShaderFromSource src w k =
    (let w1 = (if s_opens src then w else print_err [FailedToOpenFile (shader_path k)] w);
         w2 = issue [CreateShaderModule k] w1
     in case await (s_compiled src) of
          None \<Rightarrow> Inl Diverges
        | Some msgs \<Rightarrow> Inr (issue [CreateComputePipeline k] (print_err (compilation_log msgs) w2)))"

definition GetAllShaders :: "device \<Rightarrow> world \<Rightarrow> fault + world" where
  "GetAllShaders env w =
    (case CreateShaderFromSource (d_init env) w Init of
       Inl f \<Rightarrow> Inl f
     | Inr w1 \<Rightarrow> CreateShaderFromSource (d_stress env) w1 Stress)"

definition InitializeUniforms :: "device \<Rightarrow> world \<Rightarrow> u32 \<Rightarrow> fault + world" where
  "InitializeUniforms env w size' =
    (let info = [size', 0, 0, 0];
         w1 = (issue [WriteBuffer Info 0 info, SubmitNothing] w)
                \<lparr>w_mem := (w_mem w)(Info := overwrite info (w_mem w Info))\<rparr>
     in QueueSync (d_uniforms env) w1)"

subsection \<open>main (main.cpp, lines 486--514)\<close>

datatype exit_status = EXIT_SUCCESS | EXIT_FAILURE

text \<open>
  The command line is the program name \<open>argv[0]\<close> (\<open>program\<close>) and the
  arguments after it, so \<open>argc\<close> is one more than the number of arguments.
\<close>

definition main :: "device \<Rightarrow> string \<Rightarrow> string list \<Rightarrow> fault + (exit_status \<times> world)" where
  "main env program args =
    (if 1 + length args \<noteq> 3 then Inr (EXIT_FAILURE, print_err [Usage program] initial_world)
     else case parse (args ! 0) 65535 of
       None \<Rightarrow> Inr (EXIT_FAILURE, print_err [ExpectedTestSize] initial_world)
     | Some size' \<Rightarrow>
        (case parse (args ! 1) 1023 of
           None \<Rightarrow> Inr (EXIT_FAILURE, print_err [ExpectedTestCount] initial_world)
         | Some batchSize \<Rightarrow>
            (case GetGPUContext env initial_world of
               Inl f \<Rightarrow> Inl f
             | Inr w1 \<Rightarrow>
                (case GetAllShaders env (GetGPUBuffers w1 size') of
                   Inl f \<Rightarrow> Inl f
                 | Inr w2 \<Rightarrow>
                    (case InitializeUniforms env w2 size' of
                       Inl f \<Rightarrow> Inl f
                     | Inr w3 \<Rightarrow>
                        (case RunTest (d_trials env) size' batchSize w3 of
                           Inl f \<Rightarrow> Inl f
                         | Inr w4 \<Rightarrow> Inr (EXIT_SUCCESS, w4)))))))"

subsection \<open>The telemetry layout as the specification words it\<close>

text \<open>
  These definitions follow the specification, not the source: per tile \<open>t\<close> and
  thread slot \<open>k\<close> the word pair at offset \<open>t * 2 * 2 + k * 2\<close> is the error code and
  the observed value; the entries are scanned by increasing tile and, within a tile, by
  increasing thread slot, and the scan stops at the first entry the classifier rejects.
  They are what \<open>Validate\<close> is compared with.
\<close>

definition spec_entry_code :: "u32 list \<Rightarrow> nat \<Rightarrow> nat \<Rightarrow> u32" where
  "spec_entry_code words t k = words ! (t * 4 + k * 2)"

definition spec_entry_value :: "u32 list \<Rightarrow> nat \<Rightarrow> nat \<Rightarrow> u32" where
  "spec_entry_value words t k = words ! (t * 4 + k * 2 + 1)"

fun spec_scan :: "u32 list \<Rightarrow> (nat \<times> nat) list \<Rightarrow> bool \<times> out_line list" where
  "spec_scan words [] = (True, [])"
| "spec_scan words ((t, k) # es) =
    (case CheckError (spec_entry_code words t k) (spec_entry_value words t k) (of_nat t) (of_nat k) of
       (ok, printed) \<Rightarrow> if ok then spec_scan words es else (False, printed))"

definition spec_tile_entries :: "nat \<Rightarrow> (nat \<times> nat) list" where
  "spec_tile_entries t = [(t, 0), (t, 1)]"

definition spec_entries_from :: "nat \<Rightarrow> nat \<Rightarrow> (nat \<times> nat) list" where
  "spec_entries_from j S = concat (map spec_tile_entries [j..<S])"

definition spec_decode :: "nat \<Rightarrow> u32 list \<Rightarrow> bool \<times> out_line list" where
  "spec_decode S words = spec_scan words (spec_entries_from 0 S)"

text \<open>
  The argument as the specification words it: a base-10 unsigned integer, that is one or
  more decimal digits and nothing else. It is admitted for a bound when its value does
  not exceed the bound (65535 for the test size, 1023 for the trial count).
\<close>

definition spec_unsigned_integer :: "string \<Rightarrow> bool" where
  "spec_unsigned_integer s = (s \<noteq> [] \<and> list_all isdigit s)"

definition spec_admitted :: "nat \<Rightarrow> string \<Rightarrow> bool" where
  "spec_admitted bound s = (spec_unsigned_integer s \<and> decimal s \<le> bound)"

text \<open>
  The three shapes the specification calls legal for an observed value of thread slot
  \<open>tid\<close>: the not-ready sentinel, the ready value, any value with the inclusive bit.
\<close>

definition spec_legal_shape :: "u32 \<Rightarrow> u32 \<Rightarrow> bool" where
  "spec_legal_shape tid got =
    (got = 0 \<or>
     got = ((drop_bit (unat tid * 16) (1024 :: u32)) AND 0xFFFF) OR 0x40000000 \<or>
     got AND 0x80000000 \<noteq> 0)"

subsection \<open>A device that answers\<close>

text \<open>
  A completion fires when it is not \<open>Never\<close>; a trial is responsive when its three
  completions fire, with whatever status. \<open>is_dispatch\<close> picks the submissions of
  kernel dispatches out of the trace of device calls.
\<close>

definition fires :: "'a reply \<Rightarrow> bool" where
  "fires r = (case r of Fires n st \<Rightarrow> True | Never \<Rightarrow> False)"

definition responsive :: "trial \<Rightarrow> bool" where
  "responsive e = (fires (t_dispatched e) \<and> fires (t_copied e) \<and> fires (t_mapped e))"

definition is_dispatch :: "gpu_call \<Rightarrow> bool" where
  "is_dispatch c = (case c of SubmitDispatches ds \<Rightarrow> True | _ \<Rightarrow> False)"

text \<open>
  The negotiation and the set-up succeed: there is an instance, the adapter and the
  device are granted, both compilations and the empty submission complete.
\<close>

definition granted :: "bool reply \<Rightarrow> bool" where
  "granted r = (case r of Fires n st \<Rightarrow> st | Never \<Rightarrow> False)"

definition setup_answers :: "device \<Rightarrow> bool" where
  "setup_answers env =
    (d_instance env \<and> granted (d_adapter env) \<and> granted (d_device env) \<and>
     fires (s_compiled (d_init env)) \<and> fires (s_compiled (d_stress env)) \<and>
     fires (d_uniforms env))"

text \<open>
  What one trial yields, taken alone. \<open>telemetry_before trials start j\<close> is the error
  buffer before the dispatch of trial \<open>j\<close>, when it held \<open>start\<close> before the first
  trial. \<open>trial_outcome\<close> is the verdict and the diagnostics of trial \<open>j\<close>: at size 0
  a pass, otherwise the decoding by the specification's layout of the telemetry its
  dispatch left, or of zeros when its map fails. \<open>trial_calls\<close> is the device calls
  of trial \<open>j\<close>: the dispatches, then the copy, the map and the unmap of its readback.
\<close>

fun telemetry_before :: "(nat \<Rightarrow> trial) \<Rightarrow> u32 list \<Rightarrow> nat \<Rightarrow> u32 list" where
  "telemetry_before trials start 0 = start"
| "telemetry_before trials start (Suc j) =
     overwrite (t_telemetry (trials j)) (telemetry_before trials start j)"

definition trial_outcome :: "u32 \<Rightarrow> (nat \<Rightarrow> trial) \<Rightarrow> u32 list \<Rightarrow> nat \<Rightarrow> bool \<times> out_line list" where
  "trial_outcome size' trials start j =
    (if size' = 0 then (True, [])
     else spec_decode (unat size')
            (if granted (t_mapped (trials j)) then telemetry_before trials start (Suc j)
             else replicate (4 * unat size') 0))"

definition trial_calls :: "u32 \<Rightarrow> (nat \<Rightarrow> trial) \<Rightarrow> nat \<Rightarrow> gpu_call list" where
  "trial_calls size' trials j =
    SubmitDispatches [(Init, 256), (Stress, size')] #
    (if size' = 0 then []
     else [CopyBufferToBuffer Err 0 Readback 0 (unat size' * 2 * 2 * 4),
           MapAsync Readback 0 (unat size' * 2 * 2 * 4)] @
          (if granted (t_mapped (trials j)) then [Unmap Readback] else []))"

subsection \<open>A concrete state\<close>

text \<open>
  The buffers of a run with the given test size, with the given words in the error
  buffer, zeros elsewhere, and nothing printed or issued yet.
\<close>

definition sample_world :: "u32 \<Rightarrow> u32 list \<Rightarrow> world" where
  "sample_world size' telemetry =
    \<lparr>w_mem = (\<lambda>b. if b = Err then telemetry else replicate (buffer_words size' b) 0),
     w_stdout = [], w_stderr = [], w_calls = []\<rparr>"

text \<open>
  A trial in which every completion fires, with the given telemetry and map status.
\<close>

definition sample_trial :: "u32 list \<Rightarrow> bool \<Rightarrow> trial" where
  "sample_trial telemetry mapped_ok =
    \<lparr>t_telemetry = telemetry, t_scan = [], t_bump = [],
     t_dispatched = Fires 0 True, t_copied = Fires 1 True, t_mapped = Fires 2 mapped_ok\<rparr>"

text \<open>Trials of which the first reports a hazard and the later ones are clean.\<close>

definition sample_trials :: "nat \<Rightarrow> trial" where
  "sample_trials j = (if j = 0 then sample_trial [1, 5, 0, 0] True
                      else sample_trial [0, 0, 0, 0] True)"

text \<open>A device that answers everything, with the same trial every time.\<close>

definition sample_device :: "u32 list \<Rightarrow> bool \<Rightarrow> device" where
  "sample_device telemetry mapped_ok =
    \<lparr>d_instance = True, d_adapter = Fires 1 True, d_device = Fires 0 True,
     d_init = \<lparr>s_opens = True, s_compiled = Fires 0 []\<rparr>,
     d_stress = \<lparr>s_opens = True, s_compiled = Fires 2 [(Warning, ''unused variable'')]\<rparr>,
     d_uniforms = Fires 0 True,
     d_trials = (\<lambda>j. sample_trial telemetry mapped_ok)\<rparr>"

section \<open>Properties\<close>

lemma await_Fires: "await (Fires n st) = Some st"
  by (induction n) (simp_all add: await.simps)

subsection \<open>The loops of Validate against the layout\<close>

lemma print_out_Nil [simp]: "print_out [] w = w"
  by (simp add: print_out_def)

lemma CheckError_ok_prints_nothing: "fst (CheckError c g t k) \<Longrightarrow> snd (CheckError c g t k) = []"
  by (simp add: CheckError_def Let_def split: if_splits)

lemma spec_scan_append:
  "spec_scan words (xs @ ys) =
    (if fst (spec_scan words xs) then spec_scan words ys else spec_scan words xs)"
  by (induction xs) (auto split: prod.splits)

lemma unat_of_nat_u32: "n < 2 ^ 32 \<Longrightarrow> unat (of_nat n :: u32) = n"
  by (simp add: unat_of_nat)

lemma Validate_threads_tile:
  assumes len: "length readOut = 4 * S" and S: "S < 2 ^ 30" and j: "unat tile_id < S"
  shows "Validate_threads readOut tile_id (tile_id * SPLIT_THREADS * 2) 0 w =
         Inr (fst (spec_scan readOut (spec_tile_entries (unat tile_id))),
              print_out (snd (spec_scan readOut (spec_tile_entries (unat tile_id)))) w)"
proof -
  define t where "t = tile_id * SPLIT_THREADS * 2"
  define j where "j = unat tile_id"
  have jS: "j < S" using j by (simp add: j_def)
  have ut: "unat t = 4 * j"
    using S jS by (simp add: t_def j_def SPLIT_THREADS_def unat_word_ariths)
  have i0: "unat (t + 0 * 2) = j * 4 + 0 * 2"
    using ut by simp
  have i1: "unat (t + 0 * 2 + 1) = j * 4 + 0 * 2 + 1"
    using S jS by (simp add: unat_word_ariths ut)
  have i2: "unat (t + (0 + 1) * 2) = j * 4 + 1 * 2"
    using S jS by (simp add: unat_word_ariths ut)
  have i3: "unat (t + (0 + 1) * 2 + 1) = j * 4 + 1 * 2 + 1"
    using S jS by (simp add: unat_word_ariths ut)
  have lt: "(0 :: u32) < SPLIT_THREADS" "(0 + 1 :: u32) < SPLIT_THREADS"
    "\<not> (0 + 1 + 1 :: u32) < SPLIT_THREADS"
    by (simp_all add: SPLIT_THREADS_def)
  have v0: "vec_at readOut (t + 0 * 2) = Some (spec_entry_code readOut j 0)"
    unfolding vec_at_def i0 using len jS by (simp add: spec_entry_code_def)
  have v1: "vec_at readOut (t + 0 * 2 + 1) = Some (spec_entry_value readOut j 0)"
    unfolding vec_at_def i1 using len jS by (simp add: spec_entry_value_def)
  have v2: "vec_at readOut (t + (0 + 1) * 2) = Some (spec_entry_code readOut j 1)"
    unfolding vec_at_def i2 using len jS by (simp add: spec_entry_code_def)
  have v3: "vec_at readOut (t + (0 + 1) * 2 + 1) = Some (spec_entry_value readOut j 1)"
    unfolding vec_at_def i3 using len jS by (simp add: spec_entry_value_def)
  have step2: "\<And>w'. Validate_threads readOut tile_id t (0 + 1 + 1) w' = Inr (True, w')"
    by (subst Validate_threads.simps) (simp only: lt if_False)
  have step1: "\<And>w'. Validate_threads readOut tile_id t (0 + 1) w' =
      (case CheckError (spec_entry_code readOut j 1) (spec_entry_value readOut j 1) tile_id (0 + 1) of
         (ok, printed) \<Rightarrow> if \<not> ok then Inr (False, print_out printed w')
                          else Inr (True, print_out printed w'))"
    by (subst Validate_threads.simps) (simp only: lt if_True v2 v3 option.case step2)
  have step0: "Validate_threads readOut tile_id t 0 w =
      (case CheckError (spec_entry_code readOut j 0) (spec_entry_value readOut j 0) tile_id 0 of
         (ok, printed) \<Rightarrow> if \<not> ok then Inr (False, print_out printed w)
            else (case CheckError (spec_entry_code readOut j 1) (spec_entry_value readOut j 1) tile_id (0 + 1) of
         (ok', printed') \<Rightarrow> if \<not> ok' then Inr (False, print_out printed' (print_out printed w))
                          else Inr (True, print_out printed' (print_out printed w))))"
    by (subst Validate_threads.simps) (simp only: lt if_True v0 v1 option.case step1)
  have tid: "of_nat j = tile_id" by (simp add: j_def)
  show ?thesis
    unfolding t_def [symmetric] j_def [symmetric] step0 spec_tile_entries_def
    using CheckError_ok_prints_nothing [of "spec_entry_code readOut j 0" "spec_entry_value readOut j 0" tile_id 0]
      CheckError_ok_prints_nothing [of "spec_entry_code readOut j 1" "spec_entry_value readOut j 1" tile_id 1]
    by (auto simp: tid split: prod.splits)
qed

lemma Validate_tiles_scan:
  assumes len: "length readOut = 4 * unat size'" and S: "unat size' < 2 ^ 30"
  shows "unat tile_id \<le> unat size' \<Longrightarrow>
         Validate_tiles readOut size' tile_id w =
         Inr (fst (spec_scan readOut (spec_entries_from (unat tile_id) (unat size'))),
              print_out (snd (spec_scan readOut (spec_entries_from (unat tile_id) (unat size')))) w)"
proof (induction d \<equiv> "unat size' - unat tile_id" arbitrary: tile_id w)
  case 0
  then have "unat size' \<le> unat tile_id" by simp
  then have nlt: "\<not> tile_id < size'" by (simp add: word_less_nat_alt)
  have e: "spec_entries_from (unat tile_id) (unat size') = []"
    using \<open>unat size' \<le> unat tile_id\<close> by (simp add: spec_entries_from_def)
  show ?case
    by (subst Validate_tiles.simps) (simp only: nlt if_False e spec_scan.simps fst_conv snd_conv print_out_Nil)
next
  case (Suc d)
  from Suc.hyps(2) have j: "unat tile_id < unat size'" by linarith
  then have lt: "tile_id < size'" by (simp add: word_less_nat_alt)
  have nxt: "unat (tile_id + 1) = Suc (unat tile_id)" by (rule unat_increment [OF lt])
  have d: "d = unat size' - unat (tile_id + 1)" using Suc.hyps(2) nxt by linarith
  have le: "unat (tile_id + 1) \<le> unat size'" using j nxt by linarith
  have ents: "spec_entries_from (unat tile_id) (unat size') =
      spec_tile_entries (unat tile_id) @ spec_entries_from (Suc (unat tile_id)) (unat size')"
    using j by (simp add: spec_entries_from_def upt_conv_Cons)
  have IH: "\<And>w'. Validate_tiles readOut size' (tile_id + 1) w' =
         Inr (fst (spec_scan readOut (spec_entries_from (Suc (unat tile_id)) (unat size'))),
              print_out (snd (spec_scan readOut (spec_entries_from (Suc (unat tile_id)) (unat size')))) w')"
    using Suc.hyps(1) [OF d le] unfolding nxt .
  have thr: "Validate_threads readOut tile_id (tile_id * SPLIT_THREADS * 2) 0 w =
         Inr (fst (spec_scan readOut (spec_tile_entries (unat tile_id))),
              print_out (snd (spec_scan readOut (spec_tile_entries (unat tile_id)))) w)"
    by (rule Validate_threads_tile [OF len S j])
  have clean: "fst (spec_scan readOut (spec_tile_entries (unat tile_id))) \<Longrightarrow>
     snd (spec_scan readOut (spec_tile_entries (unat tile_id))) = []"
    using CheckError_ok_prints_nothing
    by (auto simp: spec_tile_entries_def split: prod.splits if_splits)
  have unf: "Validate_tiles readOut size' tile_id w =
     (if fst (spec_scan readOut (spec_tile_entries (unat tile_id)))
      then Validate_tiles readOut size' (tile_id + 1)
             (print_out (snd (spec_scan readOut (spec_tile_entries (unat tile_id)))) w)
      else Inr (False, print_out (snd (spec_scan readOut (spec_tile_entries (unat tile_id)))) w))"
    by (subst Validate_tiles.simps) (simp only: lt if_True Let_def thr sum.case prod.case)
  show ?case
  proof (cases "fst (spec_scan readOut (spec_tile_entries (unat tile_id)))")
    case True
    then show ?thesis
      unfolding unf ents spec_scan_append by (simp only: if_True clean IH print_out_Nil)
  next
    case False
    then show ?thesis
      unfolding unf ents spec_scan_append by (simp only: if_False)
  qed
qed

lemma Validate_decodes:
  assumes nz: "size' \<noteq> 0" and S: "unat size' < 2 ^ 30"
    and al: "allocated size' w"
    and c: "await copied = Some qok" and m: "await mapped = Some mok"
  defines "readOut' \<equiv> (if mok then w_mem w Err else replicate (4 * unat size') 0)"
  shows "\<exists>w'. Validate copied mapped w size' = Inr (fst (spec_decode (unat size') readOut'), w') \<and>
           w_stdout w' = w_stdout w @ snd (spec_decode (unat size') readOut') \<and>
           w_stderr w' = w_stderr w @ (if qok then [] else [QueueSubmissionFailed]) @
                                      (if mok then [] else [BadReadback]) \<and>
           w_calls w' = w_calls w @
              [CopyBufferToBuffer Err 0 Readback 0 (unat size' * 2 * 2 * 4),
               MapAsync Readback 0 (unat size' * 2 * 2 * 4)] @ (if mok then [Unmap Readback] else []) \<and>
           w_mem w' = (w_mem w)(Readback := w_mem w Err)"
proof -
  define n where "n = unat size'"
  have len: "unat (size' * SPLIT_THREADS * 2) = 4 * n"
    using S by (simp add: n_def SPLIT_THREADS_def unat_word_ariths)
  have n32: "4 * n < 2 ^ 32" using S by (simp add: n_def)
  have wlen: "unat (word_of_nat (4 * n) :: u32) = 4 * n"
    by (rule unat_of_nat_u32 [OF n32])
  have lE: "length (w_mem w Err) = 4 * n" and lR: "length (w_mem w Readback) = 4 * n"
    using al by (simp_all add: allocated_def n_def)
  define w1 where "w1 = (if qok then (\<lambda>x. x) else print_err [QueueSubmissionFailed])
     ((issue [CopyBufferToBuffer Err 0 Readback 0 (4 * n * 4)] w)\<lparr>w_mem := (w_mem w)(Readback := w_mem w Err)\<rparr>)"
  have cp: "CopyBufferSync copied w Err Readback (unat (0 :: u32) * 4) (4 * n * 4) = Inr w1"
    by (simp add: CopyBufferSync_def QueueSync_def c device_copy_def copy_words_def lE lR
        issue_def print_err_def w1_def)
  have m1: "w_mem w1 Readback = w_mem w Err"
    by (simp add: w1_def print_err_def issue_def)
  define w2 where "w2 = (if mok then issue [Unmap Readback] else print_err [BadReadback])
      (issue [MapAsync Readback 0 (4 * n * 4)] w1)"
  have rb: "ReadbackSync mapped w1 Readback (replicate (4 * n) 0) (4 * n * 4) = Inr (readOut', w2)"
    by (simp add: ReadbackSync_def Let_def m memcpy_words_def issue_def m1 lE readOut'_def w2_def n_def)
  have crb: "CopyAndReadbackSync copied mapped w Err Readback (replicate (4 * n) 0) 0 (word_of_nat (4 * n))
      = Inr (readOut', w2)"
    unfolding CopyAndReadbackSync_def wlen cp using rb by simp
  have lr: "length readOut' = 4 * unat size'"
    by (simp add: readOut'_def lE n_def)
  have tiles: "Validate_tiles readOut' size' 0 w2 =
      Inr (fst (spec_decode n readOut'), print_out (snd (spec_decode n readOut')) w2)"
    using Validate_tiles_scan [OF lr S, of 0 w2] by (simp add: spec_decode_def n_def)
  have V: "Validate copied mapped w size' =
      Inr (fst (spec_decode n readOut'), print_out (snd (spec_decode n readOut')) w2)"
    unfolding Validate_def Let_def len
    by (simp only: length_replicate crb nz if_False sum.case prod.case tiles)
  show ?thesis
    unfolding V n_def [symmetric]
    by (rule exI [of _ "print_out (snd (spec_decode n readOut')) w2"])
       (simp add: print_out_def w2_def w1_def issue_def print_err_def)
qed

subsection \<open>Facts about the layout and the buffers\<close>

lemma spec_scan_clean:
  "(\<And>t k. (t, k) \<in> set es \<Longrightarrow> spec_entry_code words t k = 0) \<Longrightarrow>
   spec_scan words es = (True, [])"
proof (induction es)
  case Nil
  show ?case by simp
next
  case (Cons e es)
  obtain t k where e: "e = (t, k)" by (cases e)
  have c: "spec_entry_code words t k = 0" using Cons.prems [of t k] e by simp
  have "spec_scan words es = (True, [])" using Cons.IH Cons.prems by simp
  then show ?case by (simp add: e c CheckError_def)
qed

lemma in_spec_entries_from:
  "(t, k) \<in> set (spec_entries_from a b) \<Longrightarrow> a \<le> t \<and> t < b \<and> k < 2"
  by (auto simp: spec_entries_from_def spec_tile_entries_def)

lemma spec_entries_split:
  "t < S \<Longrightarrow> spec_entries_from 0 S =
     spec_entries_from 0 t @ spec_tile_entries t @ spec_entries_from (Suc t) S"
proof -
  assume "t < S"
  then have "[0..<S] = [0..<t] @ t # [Suc t..<S]"
    by (metis le_add1 less_imp_add_positive plus_nat.add_0 upt_add_eq_append upt_conv_Cons)
  then show ?thesis by (simp add: spec_entries_from_def)
qed

lemma spec_scan_Cons:
  "spec_scan words ((t, k) # es) =
    (if spec_entry_code words t k = 0 then spec_scan words es
     else (False, snd (CheckError (spec_entry_code words t k) (spec_entry_value words t k)
                         (of_nat t) (of_nat k))))"
  by (simp add: case_prod_beta CheckError_def Let_def)

lemma spec_decode_first_failure:
  assumes t: "t < S" and k: "k < 2"
    and fail: "words ! (t * 4 + k * 2) \<noteq> 0"
    and first: "\<And>t' k'. k' < 2 \<Longrightarrow> t' < t \<or> (t' = t \<and> k' < k) \<Longrightarrow> words ! (t' * 4 + k' * 2) = 0"
  shows "spec_decode S words =
     (False, snd (CheckError (words ! (t * 4 + k * 2)) (words ! (t * 4 + k * 2 + 1))
                    (of_nat t) (of_nat k)))"
proof -
  have pre: "spec_scan words (spec_entries_from 0 t) = (True, [])"
  proof (rule spec_scan_clean)
    fix t' k' assume "(t', k') \<in> set (spec_entries_from 0 t)"
    then have "t' < t" "k' < 2" using in_spec_entries_from by blast+
    then show "spec_entry_code words t' k' = 0"
      using first [of k' t'] by (simp add: spec_entry_code_def)
  qed
  have c: "spec_entry_code words t k \<noteq> 0"
    using fail by (simp add: spec_entry_code_def)
  have tile: "spec_scan words (spec_tile_entries t @ rest) =
     (False, snd (CheckError (spec_entry_code words t k) (spec_entry_value words t k)
                    (of_nat t) (of_nat k)))" for rest
  proof (cases "k = 0")
    case True
    then show ?thesis
      using c by (simp add: spec_tile_entries_def spec_scan_Cons del: spec_scan.simps)
  next
    case False
    then have k1: "k = 1" using k by simp
    have z: "spec_entry_code words t 0 = 0"
      using first [of 0 t] k1 by (simp add: spec_entry_code_def)
    show ?thesis
      using c unfolding k1
      by (simp add: spec_tile_entries_def spec_scan_Cons z del: spec_scan.simps)
  qed
  have "spec_decode S words =
      spec_scan words (spec_tile_entries t @ spec_entries_from (Suc t) S)"
    unfolding spec_decode_def spec_entries_split [OF t]
    by (subst spec_scan_append) (simp only: pre fst_conv if_True)
  then show ?thesis
    by (simp only: tile spec_entry_code_def spec_entry_value_def)
qed

lemma spec_decode_all_zero:
  "spec_decode S (replicate (4 * S) 0) = (True, [])"
  unfolding spec_decode_def
proof (rule spec_scan_clean)
  fix t k assume "(t, k) \<in> set (spec_entries_from 0 S)"
  then have "t < S" "k < 2" using in_spec_entries_from by blast+
  then show "spec_entry_code (replicate (4 * S) 0) t k = 0"
    by (simp add: spec_entry_code_def)
qed

lemma length_overwrite [simp]: "length (overwrite new old) = length old"
  by (simp add: overwrite_def)

lemma allocated_device_dispatch: "allocated size' w \<Longrightarrow> allocated size' (device_dispatch e w)"
  by (simp add: allocated_def device_dispatch_def)

lemma allocated_issue [simp]: "allocated size' (issue cs w) = allocated size' w"
  by (simp add: allocated_def issue_def)

lemma allocated_print_err [simp]: "allocated size' (print_err ls w) = allocated size' w"
  by (simp add: allocated_def print_err_def)

lemma allocated_print_out [simp]: "allocated size' (print_out ls w) = allocated size' w"
  by (simp add: allocated_def print_out_def)

lemma allocated_after_copy:
  "allocated size' w \<Longrightarrow> w_mem w' = (w_mem w)(Readback := w_mem w Err) \<Longrightarrow> allocated size' w'"
  by (simp add: allocated_def)

lemma Validate_failed_map_passes:
  assumes "size' \<noteq> 0" and "unat size' < 2 ^ 30" and "allocated size' w"
    and "await copied = Some qok" and "await mapped = Some False"
  shows "\<exists>w'. Validate copied mapped w size' = Inr (True, w') \<and>
            w_stdout w' = w_stdout w \<and>
            w_stderr w' = w_stderr w @ (if qok then [] else [QueueSubmissionFailed]) @ [BadReadback]"
  using Validate_decodes [OF assms] by (auto simp: spec_decode_all_zero)

lemma allocated_sample_world:
  "length telemetry = 4 * unat size' \<Longrightarrow> allocated size' (sample_world size' telemetry)"
  by (simp add: allocated_def sample_world_def buffer_words_def)

lemma sample_first:
  "\<forall>t' k'. k' < 2 \<and> (t' < 1 \<or> (t' = 1 \<and> k' < 1)) \<longrightarrow>
      ([0, 0, 0, 7, 0, 0, 2, 9, 0, 0, 0, 0] :: u32 list) ! (t' * 4 + k' * 2) = 0"
proof (intro allI impI)
  fix t' k' :: nat
  assume "k' < 2 \<and> (t' < 1 \<or> (t' = 1 \<and> k' < 1))"
  then consider "t' = 0 \<and> k' = 0" | "t' = 0 \<and> k' = 1" | "t' = 1 \<and> k' = 0"
    by linarith
  then show "([0, 0, 0, 7, 0, 0, 2, 9, 0, 0, 0, 0] :: u32 list) ! (t' * 4 + k' * 2) = 0"
    by cases simp_all
qed

subsection \<open>Facts about the trial loop\<close>

lemma fires_await: "fires r \<Longrightarrow> \<exists>st. await r = Some st"
  by (cases r) (simp_all add: fires_def await_Fires)

lemma QueueSync_fires:
  "await r = Some ok \<Longrightarrow>
   QueueSync r w = Inr (if ok then w else print_err [QueueSubmissionFailed] w)"
  by (simp add: QueueSync_def)

lemma Validate_returns:
  assumes S: "unat size' < 2 ^ 30" and al: "allocated size' w"
    and c: "await copied = Some qok" and m: "await mapped = Some mok"
  shows "\<exists>ok w' diags cs. Validate copied mapped w size' = Inr (ok, w') \<and>
           allocated size' w' \<and> w_stdout w' = w_stdout w @ diags \<and>
           w_calls w' = w_calls w @ cs \<and> filter is_dispatch cs = []"
proof (cases "size' = 0")
  case True
  show ?thesis
    unfolding True
    by (intro exI [of _ True] exI [of _ w] exI [of _ "[]"])
       (use al True in \<open>simp add: Validate_def\<close>)
next
  case False
  obtain w' where 1: "Validate copied mapped w size' =
        Inr (fst (spec_decode (unat size')
                   (if mok then w_mem w Err else replicate (4 * unat size') 0)), w')"
      "w_stdout w' = w_stdout w @ snd (spec_decode (unat size')
                   (if mok then w_mem w Err else replicate (4 * unat size') 0))"
      "w_calls w' = w_calls w @
              [CopyBufferToBuffer Err 0 Readback 0 (unat size' * 2 * 2 * 4),
               MapAsync Readback 0 (unat size' * 2 * 2 * 4)] @ (if mok then [Unmap Readback] else [])"
      "w_mem w' = (w_mem w)(Readback := w_mem w Err)"
    using Validate_decodes [OF False S al c m] by auto
  have a: "allocated size' w'" by (rule allocated_after_copy [OF al 1(4)])
  show ?thesis
    using 1(1,2,3) a
    by (intro exI [of _ "fst (spec_decode (unat size')
                   (if mok then w_mem w Err else replicate (4 * unat size') 0))"]
          exI [of _ w'] exI [of _ "snd (spec_decode (unat size')
                   (if mok then w_mem w Err else replicate (4 * unat size') 0))"]
          exI [of _ "[CopyBufferToBuffer Err 0 Readback 0 (unat size' * 2 * 2 * 4),
               MapAsync Readback 0 (unat size' * 2 * 2 * 4)] @ (if mok then [Unmap Readback] else [])"])
       (simp add: is_dispatch_def)
qed

lemma trial_step:
  assumes S: "unat size' < 2 ^ 30" and al: "allocated size' w"
    and lt: "i < batchSize" and r: "responsive (trials (unat i))"
  shows "\<exists>ok w' diags cs.
      RunTest_loop trials size' batchSize i testsPassed w =
      RunTest_loop trials size' batchSize (i + 1) (testsPassed + (if ok then 1 else 0)) w' \<and>
      allocated size' w' \<and> w_stdout w' = w_stdout w @ diags \<and>
      w_calls w' = w_calls w @ SubmitDispatches [(Init, 256), (Stress, size')] # cs \<and>
      filter is_dispatch cs = []"
proof -
  define e where "e = trials (unat i)"
  define w1 where "w1 = device_dispatch e (issue [SubmitDispatches [(Init, 256), (Stress, size')]] w)"
  obtain dok qok mok where aw: "await (t_dispatched e) = Some dok"
      "await (t_copied e) = Some qok" "await (t_mapped e) = Some mok"
    using r fires_await unfolding responsive_def e_def by blast
  define w2 where "w2 = (if dok then w1 else print_err [QueueSubmissionFailed] w1)"
  have q: "QueueSync (t_dispatched e) w1 = Inr w2"
    by (simp add: QueueSync_fires [OF aw(1)] w2_def)
  have a1: "allocated size' w1"
    unfolding w1_def using al by (simp add: allocated_device_dispatch)
  have a2: "allocated size' w2" using a1 by (simp add: w2_def)
  have o2: "w_stdout w2 = w_stdout w"
    by (simp add: w2_def w1_def device_dispatch_def issue_def print_err_def)
  have c2: "w_calls w2 = w_calls w @ [SubmitDispatches [(Init, 256), (Stress, size')]]"
    by (simp add: w2_def w1_def device_dispatch_def issue_def print_err_def)
  obtain ok w3 diags cs where v: "Validate (t_copied e) (t_mapped e) w2 size' = Inr (ok, w3)"
      "allocated size' w3" "w_stdout w3 = w_stdout w2 @ diags"
      "w_calls w3 = w_calls w2 @ cs" "filter is_dispatch cs = []"
    using Validate_returns [OF S a2 aw(2,3)] by blast
  have unf: "RunTest_loop trials size' batchSize i testsPassed w =
      RunTest_loop trials size' batchSize (i + 1) (testsPassed + (if ok then 1 else 0)) w3"
    by (subst RunTest_loop.simps)
       (simp only: lt if_True Let_def e_def [symmetric] w1_def [symmetric] q v(1) sum.case prod.case)
  show ?thesis
    using unf v(2,3,4,5) unfolding o2 c2
    by (intro exI [of _ ok] exI [of _ w3] exI [of _ diags] exI [of _ cs]) simp
qed

lemma RunTest_loop_runs:
  assumes S: "unat size' < 2 ^ 30"
  shows "allocated size' w \<Longrightarrow> unat i \<le> unat batchSize \<Longrightarrow>
     (\<And>j. unat i \<le> j \<Longrightarrow> j < unat batchSize \<Longrightarrow> responsive (trials j)) \<Longrightarrow>
     \<exists>n w' diags cs.
       RunTest_loop trials size' batchSize i testsPassed w = Inr (testsPassed + of_nat n, w') \<and>
       n \<le> unat batchSize - unat i \<and>
       w_stdout w' = w_stdout w @ diags \<and>
       w_calls w' = w_calls w @ cs \<and>
       filter is_dispatch cs =
         replicate (unat batchSize - unat i) (SubmitDispatches [(Init, 256), (Stress, size')])"
proof (induction d \<equiv> "unat batchSize - unat i" arbitrary: i testsPassed w)
  case 0
  then have "unat batchSize \<le> unat i" by simp
  then have nlt: "\<not> i < batchSize" by (simp add: word_less_nat_alt)
  have r: "RunTest_loop trials size' batchSize i testsPassed w = Inr (testsPassed, w)"
    by (subst RunTest_loop.simps) (simp only: nlt if_False)
  show ?case
    unfolding r using \<open>0 = unat batchSize - unat i\<close>
    by (intro exI [of _ 0] exI [of _ w] exI [of _ "[]"]) simp
next
  case (Suc d)
  from Suc.hyps(2) have j: "unat i < unat batchSize" by linarith
  then have lt: "i < batchSize" by (simp add: word_less_nat_alt)
  have nxt: "unat (i + 1) = Suc (unat i)" by (rule unat_increment [OF lt])
  have d: "d = unat batchSize - unat (i + 1)" using Suc.hyps(2) nxt by linarith
  have le: "unat (i + 1) \<le> unat batchSize" using j nxt by linarith
  have resp: "responsive (trials (unat i))" using Suc.prems(3) [of "unat i"] j by simp
  obtain ok w1 diags1 cs1 where step:
      "RunTest_loop trials size' batchSize i testsPassed w =
       RunTest_loop trials size' batchSize (i + 1) (testsPassed + (if ok then 1 else 0)) w1"
      "allocated size' w1" "w_stdout w1 = w_stdout w @ diags1"
      "w_calls w1 = w_calls w @ SubmitDispatches [(Init, 256), (Stress, size')] # cs1"
      "filter is_dispatch cs1 = []"
    using trial_step [where trials = trials and i = i and testsPassed = testsPassed, OF S Suc.prems(1) lt resp] by blast
  have resp': "\<And>j. unat (i + 1) \<le> j \<Longrightarrow> j < unat batchSize \<Longrightarrow> responsive (trials j)"
    using Suc.prems(3) nxt by simp
  obtain n w' diags cs where rest:
      "RunTest_loop trials size' batchSize (i + 1) (testsPassed + (if ok then 1 else 0)) w1 =
         Inr (testsPassed + (if ok then 1 else 0) + of_nat n, w')"
      "n \<le> unat batchSize - unat (i + 1)"
      "w_stdout w' = w_stdout w1 @ diags"
      "w_calls w' = w_calls w1 @ cs"
      "filter is_dispatch cs =
         replicate (unat batchSize - unat (i + 1)) (SubmitDispatches [(Init, 256), (Stress, size')])"
    using Suc.hyps(1) [where i = "i + 1" and testsPassed = "testsPassed + (if ok then 1 else 0)", OF d step(2) le resp'] by blast
  define n' where "n' = (if ok then 1 else 0) + n"
  have p: "testsPassed + (if ok then 1 else 0) + of_nat n = testsPassed + of_nat n'"
    by (simp add: n'_def)
  have n': "n' \<le> unat batchSize - unat i"
    using rest(2) nxt j by (cases ok) (auto simp: n'_def)
  have rep: "replicate (unat batchSize - unat i) (SubmitDispatches [(Init, 256), (Stress, size')]) =
      SubmitDispatches [(Init, 256), (Stress, size')] #
      replicate (unat batchSize - unat (i + 1)) (SubmitDispatches [(Init, 256), (Stress, size')])"
    using j nxt by (metis Suc.hyps(2) d replicate_Suc)
  have disp: "is_dispatch (SubmitDispatches [(Init, 256), (Stress, size')])"
    by (simp add: is_dispatch_def)
  show ?case
    unfolding step(1) rest(1) p rep
    using n' rest(3,4,5) step(3,4,5) disp
    by (intro exI [of _ n'] exI [of _ w'] exI [of _ "diags1 @ diags"]
          exI [of _ "SubmitDispatches [(Init, 256), (Stress, size')] # cs1 @ cs"]) simp
qed

lemma responsive_sample_trial: "responsive (sample_trial telemetry mapped_ok)"
  by (simp add: responsive_def sample_trial_def fires_def)

lemma await_granted: "fires r \<Longrightarrow> await r = Some (granted r)"
  by (cases r) (simp_all add: fires_def granted_def await_Fires)

lemma trial_step_outcome:
  assumes S: "unat size' < 2 ^ 30" and al: "allocated size' w"
    and lt: "i < batchSize" and r: "responsive (trials (unat i))"
    and E: "w_mem w Err = telemetry_before trials start (unat i)"
  shows "\<exists>w'.
      RunTest_loop trials size' batchSize i testsPassed w =
      RunTest_loop trials size' batchSize (i + 1)
        (testsPassed + (if fst (trial_outcome size' trials start (unat i)) then 1 else 0)) w' \<and>
      allocated size' w' \<and>
      w_stdout w' = w_stdout w @ snd (trial_outcome size' trials start (unat i)) \<and>
      w_calls w' = w_calls w @ trial_calls size' trials (unat i) \<and>
      w_mem w' Err = telemetry_before trials start (Suc (unat i))"
proof -
  define e where "e = trials (unat i)"
  define w1 where "w1 = device_dispatch e (issue [SubmitDispatches [(Init, 256), (Stress, size')]] w)"
  obtain dok qok where aw: "await (t_dispatched e) = Some dok" "await (t_copied e) = Some qok"
    using r fires_await unfolding responsive_def e_def by blast
  have am: "await (t_mapped e) = Some (granted (t_mapped e))"
    using r unfolding responsive_def e_def by (simp add: await_granted)
  define w2 where "w2 = (if dok then w1 else print_err [QueueSubmissionFailed] w1)"
  have q: "QueueSync (t_dispatched e) w1 = Inr w2"
    by (simp add: QueueSync_fires [OF aw(1)] w2_def)
  have a1: "allocated size' w1"
    unfolding w1_def using al by (simp add: allocated_device_dispatch)
  have a2: "allocated size' w2" using a1 by (simp add: w2_def)
  have o2: "w_stdout w2 = w_stdout w"
    by (simp add: w2_def w1_def device_dispatch_def issue_def print_err_def)
  have c2: "w_calls w2 = w_calls w @ [SubmitDispatches [(Init, 256), (Stress, size')]]"
    by (simp add: w2_def w1_def device_dispatch_def issue_def print_err_def)
  have m2: "w_mem w2 Err = telemetry_before trials start (Suc (unat i))"
    by (simp add: w2_def w1_def device_dispatch_def issue_def print_err_def E e_def)
  have unf: "RunTest_loop trials size' batchSize i testsPassed w =
      (case Validate (t_copied e) (t_mapped e) w2 size' of
         Inl f \<Rightarrow> Inl f
       | Inr (ok, w3) \<Rightarrow>
           RunTest_loop trials size' batchSize (i + 1) (testsPassed + (if ok then 1 else 0)) w3)"
    by (subst RunTest_loop.simps)
       (simp only: lt if_True Let_def e_def [symmetric] w1_def [symmetric] q sum.case)
  show ?thesis
  proof (cases "size' = 0")
    case True
    have v: "Validate (t_copied e) (t_mapped e) w2 size' = Inr (True, w2)"
      by (simp add: True Validate_def)
    show ?thesis
      unfolding unf v
      using a2 o2 c2 m2 True
      by (intro exI [of _ w2]) (simp add: trial_outcome_def trial_calls_def)
  next
    case False
    obtain w3 where v: "Validate (t_copied e) (t_mapped e) w2 size' =
        Inr (fst (spec_decode (unat size')
               (if granted (t_mapped e) then w_mem w2 Err else replicate (4 * unat size') 0)), w3)"
      "w_stdout w3 = w_stdout w2 @ snd (spec_decode (unat size')
               (if granted (t_mapped e) then w_mem w2 Err else replicate (4 * unat size') 0))"
      "w_calls w3 = w_calls w2 @
              [CopyBufferToBuffer Err 0 Readback 0 (unat size' * 2 * 2 * 4),
               MapAsync Readback 0 (unat size' * 2 * 2 * 4)] @
              (if granted (t_mapped e) then [Unmap Readback] else [])"
      "w_mem w3 = (w_mem w2)(Readback := w_mem w2 Err)"
      using Validate_decodes [OF False S a2 aw(2) am] by auto
    have a3: "allocated size' w3" by (rule allocated_after_copy [OF a2 v(4)])
    have m3: "w_mem w3 Err = telemetry_before trials start (Suc (unat i))"
      by (simp add: v(4) m2)
    have oc: "trial_outcome size' trials start (unat i) =
        spec_decode (unat size')
          (if granted (t_mapped e) then w_mem w2 Err else replicate (4 * unat size') 0)"
      using False by (simp add: trial_outcome_def m2 e_def)
    have cc: "trial_calls size' trials (unat i) =
        SubmitDispatches [(Init, 256), (Stress, size')] #
        [CopyBufferToBuffer Err 0 Readback 0 (unat size' * 2 * 2 * 4),
         MapAsync Readback 0 (unat size' * 2 * 2 * 4)] @
        (if granted (t_mapped e) then [Unmap Readback] else [])"
      using False by (simp add: trial_calls_def e_def)
    show ?thesis
      unfolding unf v(1) oc cc
      using a3 m3 v(2,3) o2 c2
      by (intro exI [of _ w3]) simp
  qed
qed

lemma RunTest_loop_counts:
  assumes S: "unat size' < 2 ^ 30"
  shows "allocated size' w \<Longrightarrow> unat i \<le> unat batchSize \<Longrightarrow>
     (\<And>j. unat i \<le> j \<Longrightarrow> j < unat batchSize \<Longrightarrow> responsive (trials j)) \<Longrightarrow>
     w_mem w Err = telemetry_before trials start (unat i) \<Longrightarrow>
     \<exists>w'.
       RunTest_loop trials size' batchSize i testsPassed w =
         Inr (testsPassed +
              of_nat (length (filter (\<lambda>j. fst (trial_outcome size' trials start j))
                                [unat i..<unat batchSize])), w') \<and>
       w_stdout w' = w_stdout w @
         concat (map (\<lambda>j. snd (trial_outcome size' trials start j)) [unat i..<unat batchSize]) \<and>
       w_calls w' = w_calls w @
         concat (map (trial_calls size' trials) [unat i..<unat batchSize])"
proof (induction d \<equiv> "unat batchSize - unat i" arbitrary: i testsPassed w)
  case 0
  then have ge: "unat batchSize \<le> unat i" by simp
  then have nlt: "\<not> i < batchSize" by (simp add: word_less_nat_alt)
  have r: "RunTest_loop trials size' batchSize i testsPassed w = Inr (testsPassed, w)"
    by (subst RunTest_loop.simps) (simp only: nlt if_False)
  have e: "[unat i..<unat batchSize] = []" using ge by simp
  show ?case
    unfolding r e by (intro exI [of _ w]) simp
next
  case (Suc d)
  from Suc.hyps(2) have j: "unat i < unat batchSize" by linarith
  then have lt: "i < batchSize" by (simp add: word_less_nat_alt)
  have nxt: "unat (i + 1) = Suc (unat i)" by (rule unat_increment [OF lt])
  have d: "d = unat batchSize - unat (i + 1)" using Suc.hyps(2) nxt by linarith
  have le: "unat (i + 1) \<le> unat batchSize" using j nxt by linarith
  have resp: "responsive (trials (unat i))" using Suc.prems(3) [of "unat i"] j by simp
  define ok where "ok = fst (trial_outcome size' trials start (unat i))"
  obtain w1 where step:
      "RunTest_loop trials size' batchSize i testsPassed w =
       RunTest_loop trials size' batchSize (i + 1) (testsPassed + (if ok then 1 else 0)) w1"
      "allocated size' w1"
      "w_stdout w1 = w_stdout w @ snd (trial_outcome size' trials start (unat i))"
      "w_calls w1 = w_calls w @ trial_calls size' trials (unat i)"
      "w_mem w1 Err = telemetry_before trials start (Suc (unat i))"
    using trial_step_outcome [where trials = trials and i = i and testsPassed = testsPassed
        and start = start, OF S Suc.prems(1) lt resp Suc.prems(4)]
    unfolding ok_def by blast
  have resp': "\<And>j. unat (i + 1) \<le> j \<Longrightarrow> j < unat batchSize \<Longrightarrow> responsive (trials j)"
    using Suc.prems(3) nxt by simp
  have E': "w_mem w1 Err = telemetry_before trials start (unat (i + 1))"
    using step(5) nxt by simp
  obtain w' where rest:
      "RunTest_loop trials size' batchSize (i + 1) (testsPassed + (if ok then 1 else 0)) w1 =
         Inr (testsPassed + (if ok then 1 else 0) +
              of_nat (length (filter (\<lambda>j. fst (trial_outcome size' trials start j))
                                [unat (i + 1)..<unat batchSize])), w')"
      "w_stdout w' = w_stdout w1 @
         concat (map (\<lambda>j. snd (trial_outcome size' trials start j)) [unat (i + 1)..<unat batchSize])"
      "w_calls w' = w_calls w1 @
         concat (map (trial_calls size' trials) [unat (i + 1)..<unat batchSize])"
    using Suc.hyps(1) [where i = "i + 1" and testsPassed = "testsPassed + (if ok then 1 else 0)",
        OF d step(2) le resp' E'] by blast
  have up: "[unat i..<unat batchSize] = unat i # [unat (i + 1)..<unat batchSize]"
    using j nxt by (simp add: upt_conv_Cons)
  have cnt: "testsPassed + (if ok then 1 else 0) +
              of_nat (length (filter (\<lambda>j. fst (trial_outcome size' trials start j))
                                [unat (i + 1)..<unat batchSize])) =
             testsPassed +
              of_nat (length (filter (\<lambda>j. fst (trial_outcome size' trials start j))
                                (unat i # [unat (i + 1)..<unat batchSize])))"
    by (simp add: ok_def)
  show ?case
    unfolding step(1) rest(1) up cnt
    using rest(2,3) step(3,4)
    by (intro exI [of _ w']) simp
qed

lemma sample_outcomes:
  "trial_outcome 1 sample_trials [0, 0, 0, 0] 0 =
     (False, [MessagePassing 0 0 5 0 (Some 0x40000400) (Some 0x400) 0xFFFF 0x80000000])"
  "trial_outcome 1 sample_trials [0, 0, 0, 0] (Suc 0) = (True, [])"
  by (simp_all add: trial_outcome_def sample_trials_def sample_trial_def granted_def
      overwrite_def spec_decode_def spec_entries_from_def spec_tile_entries_def
      spec_entry_code_def spec_entry_value_def CheckError_def shr32_def Let_def
      ERROR_TYPE_MESSAGE_def FLAG_NOT_READY_def FLAG_READY_def FLAG_INCLUSIVE_def
      VALUE_MASK_def)

subsection \<open>Facts about parse and the set-up\<close>

lemma takeWhile_all: "list_all P xs \<Longrightarrow> takeWhile P xs = xs"
  by (induction xs) auto

lemma dropWhile_all: "list_all P xs \<Longrightarrow> dropWhile P xs = []"
  by (induction xs) auto

lemma not_all_rest: "\<not> list_all P xs \<Longrightarrow> dropWhile P xs \<noteq> []"
  by (induction xs) auto

lemma minus_not_digit: "\<not> isdigit CHR ''-''" "\<not> isdigit CHR ''+''"
  by (simp_all add: isdigit_def)

lemma parse_unparseable: "\<not> whole_numeral s \<Longrightarrow> parse s exclMax = None"
proof -
  assume n: "\<not> whole_numeral s"
  define r where "r = dropWhile isspace s"
  define s' where "s' = (if r \<noteq> [] \<and> (hd r = CHR ''+'' \<or> hd r = CHR ''-'') then tl r else r)"
  have bad: "s' = [] \<or> \<not> list_all isdigit s'"
    using n unfolding whole_numeral_def Let_def r_def [symmetric] s'_def [symmetric] by blast
  show ?thesis
  proof (cases "takeWhile isdigit s' = []")
    case True
    then show ?thesis
      unfolding parse_def strtoul_def Let_def r_def [symmetric] s'_def [symmetric] by simp
  next
    case False
    then have "s' \<noteq> []" by auto
    then have "dropWhile isdigit s' \<noteq> []" using bad not_all_rest by blast
    then show ?thesis
      using False
      unfolding parse_def strtoul_def Let_def r_def [symmetric] s'_def [symmetric] by auto
  qed
qed

lemma strtoul_unsigned:
  assumes "unsigned_numeral s = Some v"
  shows "strtoul s = (if ULONG_MAX < v then Converted ULONG_MAX [] True else Converted v [] False)"
proof -
  define r where "r = dropWhile isspace s"
  define ds where "ds = (if r \<noteq> [] \<and> hd r = CHR ''+'' then tl r else r)"
  have d: "ds \<noteq> []" "list_all isdigit ds" "v = decimal ds"
    using assms unfolding unsigned_numeral_def Let_def r_def [symmetric] ds_def [symmetric]
    by (auto split: if_splits)
  have rne: "r \<noteq> []" using d(1) by (auto simp: ds_def split: if_splits)
  have nneg: "hd r \<noteq> CHR ''-''"
  proof (cases "hd r = CHR ''+''")
    case True then show ?thesis by simp
  next
    case False
    then have "ds = r" by (simp add: ds_def)
    then have "isdigit (hd r)" using d(1,2) by (cases r) auto
    then show ?thesis using minus_not_digit by auto
  qed
  have s': "(if r \<noteq> [] \<and> (hd r = CHR ''+'' \<or> hd r = CHR ''-'') then tl r else r) = ds"
    using nneg by (simp add: ds_def)
  show ?thesis
    unfolding strtoul_def Let_def r_def [symmetric] s'
    by (simp add: takeWhile_all [OF d(2)] dropWhile_all [OF d(2)] d(1) d(3) nneg rne)
qed

lemma parse_unsigned:
  assumes "unsigned_numeral s = Some v"
  shows "parse s exclMax = (if v \<le> unat exclMax then Some (word_of_nat v) else None)"
proof -
  have "unat exclMax < 2 ^ 32" using unsigned_less [of exclMax, where ?'a = nat] by simp
  then have "unat exclMax \<le> ULONG_MAX" by (simp add: ULONG_MAX_def)
  then show ?thesis
    unfolding parse_def strtoul_unsigned [OF assms] by auto
qed

lemma strtoul_negated:
  assumes "negated_numeral s = Some v"
  shows "strtoul s = (if ULONG_MAX < v then Converted ULONG_MAX [] True
                      else Converted ((ULONG_MAX + 1 - v) mod (ULONG_MAX + 1)) [] False)"
proof -
  define r where "r = dropWhile isspace s"
  have d: "r \<noteq> []" "hd r = CHR ''-''" "tl r \<noteq> []" "list_all isdigit (tl r)" "v = decimal (tl r)"
    using assms unfolding negated_numeral_def Let_def r_def [symmetric]
    by (auto split: if_splits)
  show ?thesis
    unfolding strtoul_def Let_def r_def [symmetric]
    by (simp add: d(1,2,3) d(5) takeWhile_all [OF d(4)] dropWhile_all [OF d(4)])
qed

lemma parse_negated:
  assumes "negated_numeral s = Some v"
  shows "parse s exclMax =
    (if v \<le> ULONG_MAX \<and> (ULONG_MAX + 1 - v) mod (ULONG_MAX + 1) \<le> unat exclMax
     then Some (word_of_nat ((ULONG_MAX + 1 - v) mod (ULONG_MAX + 1))) else None)"
  unfolding parse_def strtoul_negated [OF assms] by auto

lemma parse_rejected: "refused (unat exclMax) s \<Longrightarrow> parse s exclMax = None"
proof -
  assume "refused (unat exclMax) s"
  then consider "\<not> whole_numeral s"
    | v where "unsigned_numeral s = Some v" "unat exclMax < v"
    | v where "negated_numeral s = Some v"
        "ULONG_MAX < v \<or> unat exclMax < (ULONG_MAX + 1 - v) mod (ULONG_MAX + 1)"
    by (auto simp: refused_def split: option.splits)
  then show ?thesis
  proof cases
    case 1
    then show ?thesis by (rule parse_unparseable)
  next
    case 2
    then show ?thesis by (simp add: parse_unsigned)
  next
    case 3
    then show ?thesis by (auto simp: parse_negated)
  qed
qed

lemma parse_bound: "parse s exclMax = Some v \<Longrightarrow> v \<le> exclMax"
proof -
  assume p: "parse s exclMax = Some v"
  then obtain t e where c: "strtoul s = Converted t e False" "t \<le> unat exclMax" "v = word_of_nat t"
    by (auto simp: parse_def split: strtoul_result.splits if_splits)
  have "t < 2 ^ 32" using c(2) unsigned_less [of exclMax, where ?'a = nat] by simp
  then have "unat (word_of_nat t :: u32) = t" by (rule unat_of_nat_u32)
  then show ?thesis using c(2,3) by (simp add: word_le_nat_alt)
qed

lemma granted_await: "granted r \<Longrightarrow> await r = Some True"
  by (cases r) (simp_all add: granted_def await_Fires)

lemma allocated_cong: "w_mem w' = w_mem w \<Longrightarrow> allocated size' w' = allocated size' w"
  by (simp add: allocated_def)

lemma GetGPUContext_ok:
  "d_instance env \<Longrightarrow> granted (d_adapter env) \<Longrightarrow> granted (d_device env) \<Longrightarrow>
   GetGPUContext env w =
     Inr (issue [RequestDevice] (print_out [AdapterInfo]
            (issue [RequestAdapter] (issue [CreateInstance] w))))"
  by (simp add: GetGPUContext_def Let_def granted_await)

lemma allocated_GetGPUBuffers: "allocated size' (GetGPUBuffers w size')"
  by (simp add: allocated_def GetGPUBuffers_def buffer_words_def)

lemma w_stdout_GetGPUBuffers: "w_stdout (GetGPUBuffers w size') = w_stdout w"
  by (simp add: GetGPUBuffers_def issue_def)

lemma CreateShaderFromSource_ok:
  "fires (s_compiled src) \<Longrightarrow>
   \<exists>w'. CreateShaderFromSource src w k = Inr w' \<and> w_mem w' = w_mem w \<and>
        w_stdout w' = w_stdout w"
proof -
  assume "fires (s_compiled src)"
  then obtain msgs where "await (s_compiled src) = Some msgs" using fires_await by blast
  then show ?thesis
    by (simp add: CreateShaderFromSource_def Let_def issue_def print_err_def)
qed

lemma GetAllShaders_ok:
  assumes "fires (s_compiled (d_init env))" and "fires (s_compiled (d_stress env))"
  shows "\<exists>w'. GetAllShaders env w = Inr w' \<and> w_mem w' = w_mem w \<and> w_stdout w' = w_stdout w"
proof -
  obtain w1 where 1: "CreateShaderFromSource (d_init env) w Init = Inr w1"
      "w_mem w1 = w_mem w" "w_stdout w1 = w_stdout w"
    using CreateShaderFromSource_ok [OF assms(1)] by blast
  obtain w2 where 2: "CreateShaderFromSource (d_stress env) w1 Stress = Inr w2"
      "w_mem w2 = w_mem w1" "w_stdout w2 = w_stdout w1"
    using CreateShaderFromSource_ok [OF assms(2)] by blast
  show ?thesis
    using 1 2 by (simp add: GetAllShaders_def)
qed

lemma InitializeUniforms_ok:
  assumes "fires (d_uniforms env)" and "allocated size' w"
  shows "\<exists>w'. InitializeUniforms env w size' = Inr w' \<and> allocated size' w' \<and>
              w_stdout w' = w_stdout w"
proof -
  obtain ok where "await (d_uniforms env) = Some ok" using assms(1) fires_await by blast
  then show ?thesis
    using assms(2)
    by (simp add: InitializeUniforms_def Let_def QueueSync_fires allocated_def issue_def
        print_err_def)
qed

lemma RunTest_returns:
  assumes S: "unat size' < 2 ^ 30" and al: "allocated size' w"
    and resp: "\<forall>j < unat batchSize. responsive (trials j)"
  shows "\<exists>passed diags cs w'.
      RunTest trials size' batchSize w = Inr w' \<and>
      w_stdout w' = w_stdout w @ diags @
         [Summary passed batchSize,
          if passed = batchSize then ALL_TESTS_PASSED else TEST_FAILED] \<and>
      passed \<le> batchSize \<and>
      w_calls w' = w_calls w @ cs \<and>
      filter is_dispatch cs =
        replicate (unat batchSize) (SubmitDispatches [(Init, 256), (Stress, size')])"
proof -
  obtain n w1 diags cs where l:
      "RunTest_loop trials size' batchSize 0 0 w = Inr (0 + of_nat n, w1)"
      "n \<le> unat batchSize - unat (0 :: u32)"
      "w_stdout w1 = w_stdout w @ diags" "w_calls w1 = w_calls w @ cs"
      "filter is_dispatch cs =
         replicate (unat batchSize - unat (0 :: u32)) (SubmitDispatches [(Init, 256), (Stress, size')])"
    using RunTest_loop_runs [where trials = trials and i = 0 and testsPassed = 0 and batchSize = batchSize, OF S al] resp by auto
  have nb: "n \<le> unat batchSize" using l(2) by simp
  have "n < 2 ^ 32" using nb unsigned_less [of batchSize, where ?'a = nat] by simp
  then have un: "unat (of_nat n :: u32) = n" by (rule unat_of_nat_u32)
  have le: "(of_nat n :: u32) \<le> batchSize"
    using nb un by (simp add: word_le_nat_alt)
  show ?thesis
    using l(3,4,5) le
    by (intro exI [of _ "of_nat n"] exI [of _ diags] exI [of _ cs]
          exI [of _ "print_out [Summary (of_nat n) batchSize,
                         if of_nat n = batchSize then ALL_TESTS_PASSED else TEST_FAILED] w1"])
       (simp add: RunTest_def l(1) print_out_def)
qed

lemma parse_digits:
  assumes "spec_unsigned_integer s"
  shows "parse s exclMax = (if decimal s \<le> unat exclMax then Some (word_of_nat (decimal s)) else None)"
proof -
  have d: "s \<noteq> []" "list_all isdigit s" using assms by (simp_all add: spec_unsigned_integer_def)
  have "\<not> isspace (hd s)" "hd s \<noteq> CHR ''+''"
    using d by (cases s; auto simp: isspace_def isdigit_def)+
  then have "dropWhile isspace s = s" using d(1) by (cases s) auto
  then have "unsigned_numeral s = Some (decimal s)"
    using d \<open>hd s \<noteq> CHR ''+''\<close> by (simp add: unsigned_numeral_def)
  then show ?thesis by (rule parse_unsigned)
qed

lemma parse_agrees_on_unsigned_integers:
  "spec_unsigned_integer s \<Longrightarrow> (parse s exclMax \<noteq> None) = spec_admitted (unat exclMax) s"
  by (simp add: parse_digits spec_admitted_def)

lemma negated_example: "negated_numeral ''-18446744073709551615'' = Some 18446744073709551615"
  by (simp add: negated_numeral_def isspace_def isdigit_def decimal_def digit_value_def)

lemma parse_negated_example: "parse ''-18446744073709551615'' 65535 = Some 1"
  by (simp add: parse_negated [OF negated_example] ULONG_MAX_def)

lemma parse_minus_zero: "parse ''-0'' 1023 = Some 0"
  by (simp add: parse_negated [of _ 0] negated_numeral_def isspace_def isdigit_def decimal_def
      digit_value_def ULONG_MAX_def)

lemma parse_minus_five: "parse ''-5'' 65535 = None"
  by (simp add: parse_negated [of _ 5] negated_numeral_def isspace_def isdigit_def decimal_def
      digit_value_def ULONG_MAX_def)

lemma parse_1: "parse ''1'' 65535 = Some 1" "parse ''1'' 1023 = Some 1" "parse ''2'' 1023 = Some 2"
  by (simp_all add: parse_unsigned [of _ 1] parse_unsigned [of _ 2] unsigned_numeral_def isspace_def isdigit_def
      decimal_def digit_value_def)

subsection \<open>A device that does not answer\<close>

text \<open>
  The polling loop returns only when the completion fires. With a stalled dispatch
  \<open>RunTest\<close> never returns, and with no instance \<open>main\<close> calls through a null
  handle: the properties of \<open>RunTest\<close> and \<open>main\<close> below are stated for a device that
  answers.
\<close>

lemma await_Some_fires:
  assumes "await r = Some y"
  shows "r \<noteq> Never"
  using assms
proof (rule await.raw_induct [rotated, where P = "\<lambda>r y. r \<noteq> Never"])
  fix aw :: "'a reply \<Rightarrow> 'a option" and r' y'
  assume IH: "\<And>x y. aw x = Some y \<Longrightarrow> x \<noteq> Never"
    and st: "(case r' of Fires n st \<Rightarrow> if n = 0 then Some st else aw (Fires (n - 1) st)
               | Never \<Rightarrow> aw Never) = Some y'"
  show "r' \<noteq> Never"
  proof
    assume "r' = Never"
    with st have "aw Never = Some y'" by simp
    from IH [OF this] show False by simp
  qed
qed

lemma await_Never: "await (Never :: 'a reply) = None"
proof (cases "await (Never :: 'a reply)")
  case None
  then show ?thesis .
next
  case (Some y)
  from await_Some_fires [OF this] show ?thesis by simp
qed

lemma QueueSync_stalled: "QueueSync Never w = Inl Diverges"
  by (simp add: QueueSync_def await_Never)

lemma RunTest_stalled:
  "0 < batchSize \<Longrightarrow> t_dispatched (trials 0) = Never \<Longrightarrow>
   RunTest trials size' batchSize w = Inl Diverges"
  by (simp add: RunTest_def RunTest_loop.simps [of _ _ _ 0] Let_def QueueSync_stalled)

lemma main_without_instance:
  assumes "length args = 2" and "parse (args ! 0) 65535 = Some size'"
    and "parse (args ! 1) 1023 = Some batchSize" and "\<not> d_instance env"
  shows "main env program args = Inl NullHandle"
proof -
  have l: "(1 + length args \<noteq> 3) = False" using assms(1) by simp
  have c: "GetGPUContext env initial_world = Inl NullHandle"
    using assms(4) by (simp add: GetGPUContext_def Let_def)
  show ?thesis
    by (simp only: main_def l if_False assms(2,3) c option.case sum.case)
qed

subsection \<open>CheckError\<close>

text \<open>
  C9. A telemetry entry passes exactly when its error code word is 0; for a nonzero
  code the classifier returns failure whatever the observed value is, so the observed
  value never decides pass or fail: two entries that differ in the observed value only
  get the same verdict.
\<close>

theorem CheckError_passes_iff_code_zero:
  "fst (CheckError errCode got tile_id tid) = (errCode = 0) \<and>
   fst (CheckError errCode got tile_id tid) = fst (CheckError errCode got' tile_id tid)"
  by (simp add: CheckError_def Let_def)

text \<open>
  C1, as the specification states it, fails: the observed value 0 is the not-ready
  sentinel, a legal shape, and the classifier still returns failure for the entry
  \<open>(code 1, value 0)\<close> of tile 0, thread slot 0.
\<close>

theorem CheckError_code_1_legal_shape_counterexample:
  "spec_legal_shape 0 0 \<and> fst (CheckError 1 0 0 0) = False"
  by (simp add: spec_legal_shape_def CheckError_def ERROR_TYPE_MESSAGE_def Let_def)

text \<open>
  C1, amended. For every telemetry entry with error code 1 and thread slot 0 or 1 the
  classifier returns failure whatever the observed value is, and prints one
  message-passing diagnostic for that tile and thread slot. The legal shapes only appear
  in the diagnostic: the not-ready sentinel 0, the ready value
  \<open>((1024 >> (tid * 16)) & 0xFFFF) | 0x40000000\<close> with its payload, the value mask and
  the inclusive bit \<open>0x80000000\<close>. The observed value is printed, never compared.
\<close>

theorem CheckError_code_1:
  "tid < 2 \<Longrightarrow>
   CheckError 1 got tile_id tid =
     (False, [MessagePassing tile_id tid got 0
                (Some (((drop_bit (unat tid * 16) 1024) AND 0xFFFF) OR 0x40000000))
                (Some ((drop_bit (unat tid * 16) 1024) AND 0xFFFF))
                0xFFFF 0x80000000])"
proof -
  assume "tid < 2"
  then have "unat tid < 2" by (simp add: word_less_nat_alt)
  then have u: "unat (tid * 16) = unat tid * 16"
    by (simp add: unat_word_ariths)
  have "unat (tid * 16) < 32" using \<open>unat tid < 2\<close> unfolding u by simp
  then show ?thesis
    by (simp add: CheckError_def ERROR_TYPE_MESSAGE_def Let_def shr32_def u
        FLAG_NOT_READY_def FLAG_READY_def FLAG_INCLUSIVE_def VALUE_MASK_def)
qed

theorem CheckError_code_1_witness:
  "(1 :: u32) < 2 \<and>
   CheckError 1 0x40000000 7 1 =
     (False, [MessagePassing 7 1 0x40000000 0 (Some 0x40000000) (Some 0) 0xFFFF 0x80000000])"
  using CheckError_code_1 [of 1 "0x40000000" 7] by simp

subsection \<open>Validate and ReadbackSync\<close>

text \<open>
  C5. For test size 0 \<open>Validate\<close> returns pass and leaves the whole state as it was,
  whatever the buffers hold and whatever the device would answer: no copy is submitted,
  no map is requested, nothing is printed.
\<close>

theorem Validate_size_zero: "Validate copied mapped w 0 = Inr (True, w)"
  by (simp add: Validate_def)

text \<open>
  C8. When the map of the staging buffer fails, \<open>ReadbackSync\<close> logs
  \<open>Bad readback\<close> and returns the host vector as it received it: not one word is
  copied. The buffers are untouched as well; only the map request and the log line are
  added to the state.
\<close>

theorem ReadbackSync_failed_map:
  "await mapped = Some False \<Longrightarrow>
   ReadbackSync mapped w dstReadback readOut readbackSizeBytes =
     Inr (readOut, print_err [BadReadback] (issue [MapAsync dstReadback 0 readbackSizeBytes] w))"
  by (simp add: ReadbackSync_def Let_def)

theorem ReadbackSync_failed_map_witness:
  "await (Fires 2 False) = Some False \<and>
   ReadbackSync (Fires 2 False) (sample_world 1 [1, 5, 0, 0]) Readback [7, 7, 7, 7] 16 =
     Inr ([7, 7, 7, 7],
          print_err [BadReadback] (issue [MapAsync Readback 0 16] (sample_world 1 [1, 5, 0, 0])))"
  using ReadbackSync_failed_map [of "Fires 2 False" "sample_world 1 [1, 5, 0, 0]" Readback "[7, 7, 7, 7]" 16]
  by (simp add: await_Fires)

text \<open>
  C6. For a test size \<open>S > 0\<close> (below \<open>2^30\<close>, so that \<open>S * 2 * 2\<close> does not wrap in 32
  bits; the command line admits sizes up to 65535), with the buffers allocated for \<open>S\<close>
  and a map that succeeds, \<open>Validate\<close> copies \<open>S * 2 * 2\<close> words (\<open>S * 2 * 2 * 4\<close>
  bytes) of the error buffer from offset 0 into the staging buffer, maps exactly that
  range, and its verdict and diagnostics are those of the specification's layout: for
  tile \<open>t < S\<close> and thread slot \<open>k < 2\<close> the error code is word \<open>t * 4 + k * 2\<close> and
  the observed value word \<open>t * 4 + k * 2 + 1\<close>.
\<close>

theorem Validate_reads_back_and_decodes:
  assumes "size' \<noteq> 0" and "unat size' < 2 ^ 30" and "allocated size' w"
    and "await copied = Some qok" and "await mapped = Some True"
  shows "\<exists>w'. Validate copied mapped w size' =
                 Inr (fst (spec_decode (unat size') (w_mem w Err)), w') \<and>
              w_stdout w' = w_stdout w @ snd (spec_decode (unat size') (w_mem w Err)) \<and>
              w_calls w' = w_calls w @
                [CopyBufferToBuffer Err 0 Readback 0 (unat size' * 2 * 2 * 4),
                 MapAsync Readback 0 (unat size' * 2 * 2 * 4), Unmap Readback]"
  using Validate_decodes [OF assms] by auto

theorem Validate_reads_back_and_decodes_witness:
  "(1 :: u32) \<noteq> 0 \<and> unat (1 :: u32) < 2 ^ 30 \<and> allocated 1 (sample_world 1 [0, 9, 2, 5]) \<and>
   await (Fires 1 True) = Some True \<and> await (Fires 0 True) = Some True \<and>
   (\<exists>w'. Validate (Fires 1 True) (Fires 0 True) (sample_world 1 [0, 9, 2, 5]) 1 =
            Inr (False, w') \<and>
          w_stdout w' = [Shuffle 0 1 5] \<and>
          w_calls w' = [CopyBufferToBuffer Err 0 Readback 0 16, MapAsync Readback 0 16,
                        Unmap Readback])"
proof -
  have a: "allocated 1 (sample_world 1 [0, 9, 2, 5])"
    by (simp add: allocated_def sample_world_def buffer_words_def)
  have d: "spec_decode (Suc 0) [0, 9, 2, 5] = (False, [Shuffle 0 1 5])"
    by (simp add: spec_decode_def spec_entries_from_def spec_tile_entries_def
        spec_entry_code_def spec_entry_value_def CheckError_def
        ERROR_TYPE_MESSAGE_def ERROR_TYPE_SHUFFLE_def)
  have m: "w_mem (sample_world 1 [0, 9, 2, 5]) Err = [0, 9, 2, 5]"
    "w_stdout (sample_world 1 [0, 9, 2, 5]) = []" "w_calls (sample_world 1 [0, 9, 2, 5]) = []"
    by (simp_all add: sample_world_def)
  show ?thesis
    using Validate_reads_back_and_decodes [of 1 "sample_world 1 [0, 9, 2, 5]" "Fires 1 True" True "Fires 0 True"] a
    by (simp add: await_Fires d m)
qed

text \<open>
  C3. Take a telemetry buffer whose entry for tile \<open>t\<close>, thread slot \<open>k\<close> has a nonzero
  error code while every entry before it, by increasing tile and then by increasing
  thread slot, has code 0. With the buffers allocated for the test size and a map that
  succeeds, \<open>Validate\<close> returns failure and prints exactly the diagnostic of that
  entry, which names tile \<open>t\<close> and thread slot \<open>k\<close>. Any other state whose telemetry
  agrees on the words up to and including that entry gets the same verdict and the
  same diagnostic: the words after the entry are never looked at.
\<close>

theorem Validate_first_failure:
  assumes "size' \<noteq> 0" and "unat size' < 2 ^ 30"
    and "allocated size' w" and "allocated size' w2"
    and "await copied = Some qok" and "await mapped = Some True"
    and "await copied2 = Some qok2" and "await mapped2 = Some True"
    and t: "t < unat size'" and k: "k < 2"
    and fail: "w_mem w Err ! (t * 4 + k * 2) \<noteq> 0"
    and first: "\<forall>t' k'. k' < 2 \<and> (t' < t \<or> (t' = t \<and> k' < k)) \<longrightarrow>
                  w_mem w Err ! (t' * 4 + k' * 2) = 0"
    and same: "take (t * 4 + k * 2 + 2) (w_mem w2 Err) = take (t * 4 + k * 2 + 2) (w_mem w Err)"
  shows "\<exists>w' w2'.
      Validate copied mapped w size' = Inr (False, w') \<and>
      w_stdout w' = w_stdout w @
        snd (CheckError (w_mem w Err ! (t * 4 + k * 2)) (w_mem w Err ! (t * 4 + k * 2 + 1))
               (of_nat t) (of_nat k)) \<and>
      Validate copied2 mapped2 w2 size' = Inr (False, w2') \<and>
      w_stdout w2' = w_stdout w2 @
        snd (CheckError (w_mem w Err ! (t * 4 + k * 2)) (w_mem w Err ! (t * 4 + k * 2 + 1))
               (of_nat t) (of_nat k))"
proof -
  let ?n = "t * 4 + k * 2 + 2"
  have agree: "w_mem w2 Err ! i = w_mem w Err ! i" if "i < ?n" for i
    using that same by (metis nth_take)
  have d1: "spec_decode (unat size') (w_mem w Err) =
     (False, snd (CheckError (w_mem w Err ! (t * 4 + k * 2)) (w_mem w Err ! (t * 4 + k * 2 + 1))
                    (of_nat t) (of_nat k)))"
    using first by (intro spec_decode_first_failure [OF t k fail]) blast
  have fail2: "w_mem w2 Err ! (t * 4 + k * 2) \<noteq> 0"
    using fail agree [of "t * 4 + k * 2"] by simp
  have first2: "w_mem w2 Err ! (t' * 4 + k' * 2) = 0"
    if "k' < 2" "t' < t \<or> (t' = t \<and> k' < k)" for t' k'
  proof -
    have "t' * 4 + k' * 2 < ?n" using that k by auto
    then show ?thesis using agree first that by simp
  qed
  have d2: "spec_decode (unat size') (w_mem w2 Err) =
     (False, snd (CheckError (w_mem w Err ! (t * 4 + k * 2)) (w_mem w Err ! (t * 4 + k * 2 + 1))
                    (of_nat t) (of_nat k)))"
    using spec_decode_first_failure [OF t k fail2 first2]
      agree [of "t * 4 + k * 2"] agree [of "t * 4 + k * 2 + 1"] by simp
  obtain w' where 1: "Validate copied mapped w size' =
        Inr (fst (spec_decode (unat size') (w_mem w Err)), w')"
      "w_stdout w' = w_stdout w @ snd (spec_decode (unat size') (w_mem w Err))"
    using Validate_decodes [OF assms(1,2,3,5,6)] by auto
  obtain w2' where 2: "Validate copied2 mapped2 w2 size' =
        Inr (fst (spec_decode (unat size') (w_mem w2 Err)), w2')"
      "w_stdout w2' = w_stdout w2 @ snd (spec_decode (unat size') (w_mem w2 Err))"
    using Validate_decodes [OF assms(1,2,4,7,8)] by auto
  show ?thesis
    using 1 2 unfolding d1 d2 by (intro exI [of _ w'] exI [of _ w2']) simp
qed

theorem Validate_first_failure_witness:
  "\<exists>w' w2'.
     Validate (Fires 0 True) (Fires 1 True)
        (sample_world 3 [0, 0, 0, 7, 0, 0, 2, 9, 0, 0, 0, 0]) 3 = Inr (False, w') \<and>
     w_stdout w' = [Shuffle 1 1 9] \<and>
     Validate (Fires 2 False) (Fires 0 True)
        (sample_world 3 [0, 0, 0, 7, 0, 0, 2, 9, 1, 1, 1, 1]) 3 = Inr (False, w2') \<and>
     w_stdout w2' = [Shuffle 1 1 9]"
proof -
  define a where "a = ([0, 0, 0, 7, 0, 0, 2, 9, 0, 0, 0, 0] :: u32 list)"
  define b where "b = ([0, 0, 0, 7, 0, 0, 2, 9, 1, 1, 1, 1] :: u32 list)"
  have m: "w_mem (sample_world 3 a) Err = a" "w_mem (sample_world 3 b) Err = b"
    "w_stdout (sample_world 3 a) = []" "w_stdout (sample_world 3 b) = []"
    by (simp_all add: sample_world_def)
  have first: "\<forall>t' k'. k' < 2 \<and> (t' < 1 \<or> (t' = 1 \<and> k' < 1)) \<longrightarrow>
      w_mem (sample_world 3 a) Err ! (t' * 4 + k' * 2) = 0"
    unfolding m unfolding a_def by (rule sample_first)
  have f: "w_mem (sample_world 3 a) Err ! (1 * 4 + 1 * 2) \<noteq> 0"
    unfolding m unfolding a_def by simp
  have s: "take (1 * 4 + 1 * 2 + 2) (w_mem (sample_world 3 b) Err) =
           take (1 * 4 + 1 * 2 + 2) (w_mem (sample_world 3 a) Err)"
    unfolding m unfolding a_def b_def by simp
  have al: "allocated 3 (sample_world 3 a)" "allocated 3 (sample_world 3 b)"
    by (simp_all add: allocated_sample_world a_def b_def)
  have h: "(3 :: u32) \<noteq> 0" "unat (3 :: u32) < 2 ^ 30" "(1 :: nat) < unat (3 :: u32)" "(1 :: nat) < 2"
    by simp_all
  have v: "w_mem (sample_world 3 a) Err ! (1 * 4 + 1 * 2) = 2"
    "w_mem (sample_world 3 a) Err ! (1 * 4 + 1 * 2 + 1) = 9"
    unfolding m unfolding a_def by simp_all
  have c: "snd (CheckError 2 9 (of_nat 1) (of_nat 1)) = [Shuffle 1 1 9]"
    by (simp add: CheckError_def ERROR_TYPE_MESSAGE_def ERROR_TYPE_SHUFFLE_def)
  have "\<exists>w' w2'.
     Validate (Fires 0 True) (Fires 1 True) (sample_world 3 a) 3 = Inr (False, w') \<and>
     w_stdout w' = w_stdout (sample_world 3 a) @ [Shuffle 1 1 9] \<and>
     Validate (Fires 2 False) (Fires 0 True) (sample_world 3 b) 3 = Inr (False, w2') \<and>
     w_stdout w2' = w_stdout (sample_world 3 b) @ [Shuffle 1 1 9]"
    using Validate_first_failure [OF h(1,2) al await_Fires await_Fires await_Fires await_Fires
        h(3,4) f first s]
    unfolding v c .
  then show ?thesis
    unfolding a_def b_def m(3,4) [unfolded a_def b_def] append_Nil .
qed

text \<open>
  C7. The verdict and the diagnostics of \<open>Validate\<close> are a function of the test size
  and the telemetry words alone: two states with the same words in the error buffer
  (whatever their staging buffer, their output so far, or the delays of the device) get
  the same verdict and the same printed lines. The first run leaves the error buffer
  and the allocation as they were, so the second state can be the one the first run
  left: decoding the same telemetry twice classifies it twice the same way.
\<close>

theorem Validate_deterministic:
  assumes "unat size' < 2 ^ 30"
    and "allocated size' w" and "allocated size' w2"
    and "w_mem w2 Err = w_mem w Err"
    and "await copied = Some qok" and "await mapped = Some True"
    and "await copied2 = Some qok2" and "await mapped2 = Some True"
  shows "\<exists>ok printed w' w2'.
      Validate copied mapped w size' = Inr (ok, w') \<and>
      w_stdout w' = w_stdout w @ printed \<and>
      Validate copied2 mapped2 w2 size' = Inr (ok, w2') \<and>
      w_stdout w2' = w_stdout w2 @ printed \<and>
      allocated size' w' \<and> w_mem w' Err = w_mem w Err"
proof (cases "size' = 0")
  case True
  show ?thesis
    unfolding True
    by (intro exI [of _ True] exI [of _ "[]"] exI [of _ w] exI [of _ w2])
       (use assms(2) True in \<open>simp add: Validate_def\<close>)
next
  case False
  obtain w' where 1: "Validate copied mapped w size' =
        Inr (fst (spec_decode (unat size') (w_mem w Err)), w')"
      "w_stdout w' = w_stdout w @ snd (spec_decode (unat size') (w_mem w Err))"
      "w_mem w' = (w_mem w)(Readback := w_mem w Err)"
    using Validate_decodes [OF False assms(1,2,5,6)] by auto
  obtain w2' where 2: "Validate copied2 mapped2 w2 size' =
        Inr (fst (spec_decode (unat size') (w_mem w2 Err)), w2')"
      "w_stdout w2' = w_stdout w2 @ snd (spec_decode (unat size') (w_mem w2 Err))"
    using Validate_decodes [OF False assms(1,3,7,8)] by auto
  have a: "allocated size' w'" by (rule allocated_after_copy [OF assms(2) 1(3)])
  show ?thesis
    using 1 2 a unfolding assms(4)
    by (intro exI [of _ "fst (spec_decode (unat size') (w_mem w Err))"]
          exI [of _ "snd (spec_decode (unat size') (w_mem w Err))"]
          exI [of _ w'] exI [of _ w2']) simp
qed

theorem Validate_deterministic_witness:
  "\<exists>ok printed w' w2'.
     Validate (Fires 0 True) (Fires 1 True) (sample_world 1 [0, 9, 2, 5]) 1 = Inr (ok, w') \<and>
     w_stdout w' = printed \<and>
     Validate (Fires 3 False) (Fires 0 True)
       (print_out [AdapterInfo] (sample_world 1 [0, 9, 2, 5])) 1 = Inr (ok, w2') \<and>
     w_stdout w2' = AdapterInfo # printed"
proof -
  have a: "allocated 1 (sample_world 1 [0, 9, 2, 5])"
    by (simp add: allocated_sample_world)
  have m: "w_stdout (sample_world 1 [0, 9, 2, 5]) = []"
    "w_stdout (print_out [AdapterInfo] (sample_world 1 [0, 9, 2, 5])) = [AdapterInfo]"
    "w_mem (print_out [AdapterInfo] (sample_world 1 [0, 9, 2, 5])) Err =
     w_mem (sample_world 1 [0, 9, 2, 5]) Err"
    by (simp_all add: sample_world_def print_out_def)
  show ?thesis
    using Validate_deterministic [of 1 "sample_world 1 [0, 9, 2, 5]"
        "print_out [AdapterInfo] (sample_world 1 [0, 9, 2, 5])"
        "Fires 0 True" True "Fires 1 True" "Fires 3 False" False "Fires 0 True"] a
    unfolding m by (simp add: await_Fires) blast
qed

subsection \<open>RunTest\<close>

text \<open>
  C2. For every test size below 65536 and every trial count below 1024, with the
  buffers allocated for the size and a device that completes every operation of every
  requested trial, \<open>RunTest\<close> returns. Every requested trial has then been run and
  counted on its own, whatever the earlier trials returned: the device calls are, trial
  after trial, the two dispatches followed by the copy and the map of that trial's
  readback; the printed lines are the diagnostics of each trial's own telemetry, in
  order, followed by the summary \<open>passed / total\<close> and the verdict; \<open>total\<close> is the
  requested count and \<open>passed\<close> is the number of trials whose own telemetry decodes
  as a pass, so \<open>0 \<le> passed \<le> total\<close>.
\<close>

theorem RunTest_runs_every_trial:
  assumes "size' < 65536" and "batchSize < 1024" and "allocated size' w"
    and "\<forall>j < unat batchSize. responsive (trials j)"
  shows "\<exists>passed w'.
      RunTest trials size' batchSize w = Inr w' \<and>
      w_stdout w' = w_stdout w @
         concat (map (\<lambda>j. snd (trial_outcome size' trials (w_mem w Err) j))
                   [0..<unat batchSize]) @
         [Summary passed batchSize,
          if passed = batchSize then ALL_TESTS_PASSED else TEST_FAILED] \<and>
      unat passed =
        length (filter (\<lambda>j. fst (trial_outcome size' trials (w_mem w Err) j))
                  [0..<unat batchSize]) \<and>
      passed \<le> batchSize \<and>
      w_calls w' = w_calls w @ concat (map (trial_calls size' trials) [0..<unat batchSize])"
proof -
  have S: "unat size' < 2 ^ 30"
    using assms(1) by (simp add: word_less_nat_alt)
  define n where "n = length (filter (\<lambda>j. fst (trial_outcome size' trials (w_mem w Err) j))
                  [0..<unat batchSize])"
  obtain w1 where l:
      "RunTest_loop trials size' batchSize 0 0 w = Inr (0 + of_nat n, w1)"
      "w_stdout w1 = w_stdout w @
         concat (map (\<lambda>j. snd (trial_outcome size' trials (w_mem w Err) j))
                   [unat (0 :: u32)..<unat batchSize])"
      "w_calls w1 = w_calls w @
         concat (map (trial_calls size' trials) [unat (0 :: u32)..<unat batchSize])"
    using RunTest_loop_counts [where trials = trials and i = 0 and testsPassed = 0
        and batchSize = batchSize and start = "w_mem w Err", OF S assms(3)] assms(4)
    unfolding n_def by auto
  have "n \<le> length [0..<unat batchSize]" unfolding n_def by (rule length_filter_le)
  then have nb: "n \<le> unat batchSize" by simp
  have "n < 2 ^ 32" using nb unsigned_less [of batchSize, where ?'a = nat] by simp
  then have un: "unat (of_nat n :: u32) = n" by (rule unat_of_nat_u32)
  have le: "(of_nat n :: u32) \<le> batchSize"
    using nb un by (simp add: word_le_nat_alt)
  show ?thesis
    using l(2,3) le un unfolding n_def [symmetric]
    by (intro exI [of _ "of_nat n"]
          exI [of _ "print_out [Summary (of_nat n) batchSize,
                         if of_nat n = batchSize then ALL_TESTS_PASSED else TEST_FAILED] w1"])
       (simp add: RunTest_def l(1) print_out_def)
qed

theorem RunTest_runs_every_trial_witness:
  "\<exists>w'. RunTest sample_trials 1 2 (sample_world 1 [0, 0, 0, 0]) = Inr w' \<and>
        w_stdout w' =
          [MessagePassing 0 0 5 0 (Some 0x40000400) (Some 0x400) 0xFFFF 0x80000000,
           Summary 1 2, TEST_FAILED] \<and>
        w_calls w' =
          [SubmitDispatches [(Init, 256), (Stress, 1)],
           CopyBufferToBuffer Err 0 Readback 0 16, MapAsync Readback 0 16, Unmap Readback,
           SubmitDispatches [(Init, 256), (Stress, 1)],
           CopyBufferToBuffer Err 0 Readback 0 16, MapAsync Readback 0 16, Unmap Readback]"
proof -
  have a: "allocated 1 (sample_world 1 [0, 0, 0, 0])"
    by (simp add: allocated_sample_world)
  have r: "\<forall>j < unat (2 :: u32). responsive (sample_trials j)"
    by (simp add: sample_trials_def responsive_sample_trial)
  have h: "(1 :: u32) < 65536" "(2 :: u32) < 1024" by simp_all
  have m: "w_stdout (sample_world 1 [0, 0, 0, 0]) = []" "w_calls (sample_world 1 [0, 0, 0, 0]) = []"
    "w_mem (sample_world 1 [0, 0, 0, 0]) Err = [0, 0, 0, 0]"
    by (simp_all add: sample_world_def)
  have two: "[0..<unat (2 :: u32)] = [0, Suc 0]"
    by (simp add: upt_conv_Cons)
  have c: "trial_calls 1 sample_trials j =
      [SubmitDispatches [(Init, 256), (Stress, 1)],
       CopyBufferToBuffer Err 0 Readback 0 16, MapAsync Readback 0 16, Unmap Readback]" for j
    by (simp add: trial_calls_def sample_trials_def sample_trial_def granted_def)
  obtain passed w' where x:
      "RunTest sample_trials 1 2 (sample_world 1 [0, 0, 0, 0]) = Inr w'"
      "w_stdout w' =
          [MessagePassing 0 0 5 0 (Some 0x40000400) (Some 0x400) 0xFFFF 0x80000000,
           Summary passed 2, if passed = 2 then ALL_TESTS_PASSED else TEST_FAILED]"
      "unat passed = 1"
      "w_calls w' =
          [SubmitDispatches [(Init, 256), (Stress, 1)],
           CopyBufferToBuffer Err 0 Readback 0 16, MapAsync Readback 0 16, Unmap Readback,
           SubmitDispatches [(Init, 256), (Stress, 1)],
           CopyBufferToBuffer Err 0 Readback 0 16, MapAsync Readback 0 16, Unmap Readback]"
    using RunTest_runs_every_trial [where trials = sample_trials, OF h a r]
    unfolding m two by (auto simp: sample_outcomes c)
  have p: "passed = 1" using x(3) by (metis unat_1 word_unat_eq_iff)
  show ?thesis
    using x(1,2,4) unfolding p by (intro exI [of _ w']) simp
qed

text \<open>
  C10. Let the map of the staging buffer fail during the readback of trial \<open>i\<close>, for a
  test size above 0, the dispatch and the copy being completed. \<open>Validate\<close> then
  returns pass for that trial, whatever the kernel wrote: the host vector was created
  as zeros, the failed map left it so, and zeros decode as a clean pass. Nothing is
  printed to standard output, \<open>Bad readback\<close> goes to standard error, and the loop of
  \<open>RunTest\<close> goes on to trial \<open>i + 1\<close> with \<open>testsPassed\<close> one higher.
\<close>

theorem failed_map_counts_as_pass:
  assumes "size' \<noteq> 0" and "unat size' < 2 ^ 30" and "allocated size' w"
    and "i < batchSize"
    and "await (t_dispatched (trials (unat i))) = Some dok"
    and "await (t_copied (trials (unat i))) = Some qok"
    and "await (t_mapped (trials (unat i))) = Some False"
  shows "\<exists>w2 w3.
      QueueSync (t_dispatched (trials (unat i)))
        (device_dispatch (trials (unat i))
           (issue [SubmitDispatches [(Init, 256), (Stress, size')]] w)) = Inr w2 \<and>
      Validate (t_copied (trials (unat i))) (t_mapped (trials (unat i))) w2 size' = Inr (True, w3) \<and>
      w_stdout w3 = w_stdout w \<and>
      w_stderr w3 = w_stderr w @ (if dok then [] else [QueueSubmissionFailed]) @
                      (if qok then [] else [QueueSubmissionFailed]) @ [BadReadback] \<and>
      RunTest_loop trials size' batchSize i testsPassed w =
        RunTest_loop trials size' batchSize (i + 1) (testsPassed + 1) w3"
proof -
  define e where "e = trials (unat i)"
  define w1 where "w1 = device_dispatch e (issue [SubmitDispatches [(Init, 256), (Stress, size')]] w)"
  define w2 where "w2 = (if dok then w1 else print_err [QueueSubmissionFailed] w1)"
  have q: "QueueSync (t_dispatched e) w1 = Inr w2"
    using assms(5) by (simp add: QueueSync_fires w2_def e_def)
  have a1: "allocated size' w1"
    unfolding w1_def using assms(3) by (simp add: allocated_device_dispatch)
  have a2: "allocated size' w2" using a1 by (simp add: w2_def)
  have o2: "w_stdout w2 = w_stdout w"
    by (simp add: w2_def w1_def device_dispatch_def issue_def print_err_def)
  have e2: "w_stderr w2 = w_stderr w @ (if dok then [] else [QueueSubmissionFailed])"
    by (simp add: w2_def w1_def device_dispatch_def issue_def print_err_def)
  obtain w3 where v: "Validate (t_copied e) (t_mapped e) w2 size' = Inr (True, w3)"
      "w_stdout w3 = w_stdout w2"
      "w_stderr w3 = w_stderr w2 @ (if qok then [] else [QueueSubmissionFailed]) @ [BadReadback]"
    using Validate_failed_map_passes [OF assms(1,2) a2, of "t_copied e" qok "t_mapped e"]
      assms(6,7) unfolding e_def by blast
  have unf: "RunTest_loop trials size' batchSize i testsPassed w =
      RunTest_loop trials size' batchSize (i + 1) (testsPassed + 1) w3"
    by (subst RunTest_loop.simps)
       (simp only: assms(4) if_True Let_def e_def [symmetric] w1_def [symmetric] q v(1)
          sum.case prod.case)
  show ?thesis
    unfolding e_def [symmetric] w1_def [symmetric]
    using q v unf unfolding o2 e2
    by (intro exI [of _ w2] exI [of _ w3]) simp
qed

theorem failed_map_counts_as_pass_witness:
  "\<exists>w3. RunTest_loop (\<lambda>j. sample_trial [1, 5, 0, 0] False) 1 1 0 0 (sample_world 1 [0, 0, 0, 0]) =
           Inr (1, w3) \<and>
         w_stdout w3 = [] \<and> w_stderr w3 = [BadReadback]"
proof -
  have a: "allocated 1 (sample_world 1 [0, 0, 0, 0])"
    by (simp add: allocated_sample_world)
  have h: "(1 :: u32) \<noteq> 0" "unat (1 :: u32) < 2 ^ 30" "(0 :: u32) < 1" by simp_all
  have aw: "await (t_dispatched (sample_trial [1, 5, 0, 0] False)) = Some True"
    "await (t_copied (sample_trial [1, 5, 0, 0] False)) = Some True"
    "await (t_mapped (sample_trial [1, 5, 0, 0] False)) = Some False"
    by (simp_all add: sample_trial_def await_Fires)
  have m: "w_stdout (sample_world 1 [0, 0, 0, 0]) = []" "w_stderr (sample_world 1 [0, 0, 0, 0]) = []"
    by (simp_all add: sample_world_def)
  have stop: "RunTest_loop trials 1 1 (0 + 1) (0 + 1) w' = Inr (1, w')" for trials w'
    by (subst RunTest_loop.simps) simp
  show ?thesis
    using failed_map_counts_as_pass [where trials = "\<lambda>j. sample_trial [1, 5, 0, 0] False"
        and i = 0 and testsPassed = 0 and batchSize = 1, OF h(1,2) a h(3) aw]
    unfolding m stop by auto
qed

subsection \<open>main\<close>

text \<open>
  A whole run, evaluated: test size 1, one trial, and the kernel reports a
  message-passing hazard for thread slot 0. The trial fails, the summary is \<open>0 / 1\<close>,
  and the exit status is success.
\<close>

lemma run_with_failed_trial:
  "\<exists>w. main (sample_device [1, 5, 0, 0] True) ''harness'' [''1'', ''1''] = Inr (EXIT_SUCCESS, w) \<and>
       w_stdout w = [AdapterInfo,
                     MessagePassing 0 0 5 0 (Some 0x40000400) (Some 0x400) 0xFFFF 0x80000000,
                     Summary 0 1, TEST_FAILED]"
  by (simp add: main_def parse_1 GetGPUContext_def GetGPUBuffers_def GetAllShaders_def
      CreateShaderFromSource_def InitializeUniforms_def RunTest_def RunTest_loop.simps
      Validate_def Validate_tiles.simps Validate_threads.simps CopyAndReadbackSync_def
      CopyBufferSync_def ReadbackSync_def QueueSync_def device_copy_def copy_words_def
      memcpy_words_def vec_at_def CheckError_def shr32_def device_dispatch_def overwrite_def
      sample_device_def sample_trial_def initial_world_def issue_def print_out_def
      print_err_def await_Fires Let_def buffer_words_def compilation_log_def shader_path_def
      SPLIT_THREADS_def ERROR_TYPE_MESSAGE_def ERROR_TYPE_SHUFFLE_def FLAG_NOT_READY_def
      FLAG_READY_def FLAG_INCLUSIVE_def VALUE_MASK_def)

text \<open>
  The exits of \<open>main\<close>. A command line with an argument count other than two, or with
  a first argument refused for 65535, or with a second argument refused for 1023, makes
  \<open>main\<close> return the failure status with one line on standard error, nothing on
  standard output and no device call issued. A command line that \<open>parse\<close> accepts,
  on a device that grants the negotiation and completes every operation, makes \<open>main\<close>
  return the success status after printing the summary, whatever the telemetry of the
  trials was and however many of them failed.
\<close>

lemma main_exit_paths:
  "(length args \<noteq> 2 \<or> refused 65535 (args ! 0) \<or> refused 1023 (args ! 1) \<longrightarrow>
      (\<exists>msg w. main env program args = Inr (EXIT_FAILURE, w) \<and> w_stderr w = [msg] \<and>
               w_stdout w = [] \<and> w_calls w = [])) \<and>
   (length args = 2 \<and> parse (args ! 0) 65535 = Some size' \<and>
    parse (args ! 1) 1023 = Some batchSize \<and> setup_answers env \<and>
    (\<forall>j < unat batchSize. responsive (d_trials env j)) \<longrightarrow>
      (\<exists>w passed diags.
         main env program args = Inr (EXIT_SUCCESS, w) \<and>
         w_stdout w = AdapterInfo # diags @
           [Summary passed batchSize,
            if passed = batchSize then ALL_TESTS_PASSED else TEST_FAILED]))"
proof (intro conjI impI)
  assume bad: "length args \<noteq> 2 \<or> refused 65535 (args ! 0) \<or> refused 1023 (args ! 1)"
  have u: "unat (65535 :: u32) = 65535" "unat (1023 :: u32) = 1023" by simp_all
  have e: "w_stderr (print_err [msg] initial_world) = [msg]"
    "w_stdout (print_err [msg] initial_world) = []"
    "w_calls (print_err [msg] initial_world) = []" for msg
    by (simp_all add: print_err_def initial_world_def)
  show "\<exists>msg w. main env program args = Inr (EXIT_FAILURE, w) \<and> w_stderr w = [msg] \<and>
               w_stdout w = [] \<and> w_calls w = []"
  proof (cases "length args \<noteq> 2")
    case True
    then show ?thesis by (simp add: main_def e)
  next
    case False
    then have l: "1 + length args = 3" by simp
    show ?thesis
    proof (cases "parse (args ! 0) 65535")
      case None
      then show ?thesis using l by (simp add: main_def e)
    next
      case (Some size')
      then have "\<not> refused 65535 (args ! 0)"
        using parse_rejected [of 65535 "args ! 0"] u by auto
      then have "refused 1023 (args ! 1)" using bad False by simp
      then have "parse (args ! 1) 1023 = None"
        using parse_rejected [of 1023 "args ! 1"] u by simp
      then show ?thesis using l Some by (simp add: main_def e)
    qed
  qed
next
  assume ok: "length args = 2 \<and> parse (args ! 0) 65535 = Some size' \<and>
    parse (args ! 1) 1023 = Some batchSize \<and> setup_answers env \<and>
    (\<forall>j < unat batchSize. responsive (d_trials env j))"
  then have l: "1 + length args = 3" and p1: "parse (args ! 0) 65535 = Some size'"
    and p2: "parse (args ! 1) 1023 = Some batchSize" and su: "setup_answers env"
    and resp: "\<forall>j < unat batchSize. responsive (d_trials env j)"
    by simp_all
  have "size' \<le> 65535" using parse_bound [OF p1] .
  then have S: "unat size' < 2 ^ 30" by (simp add: word_le_nat_alt)
  define w1 where "w1 = issue [RequestDevice] (print_out [AdapterInfo]
            (issue [RequestAdapter] (issue [CreateInstance] initial_world)))"
  have c: "GetGPUContext env initial_world = Inr w1"
    using su unfolding setup_answers_def w1_def by (simp add: GetGPUContext_ok)
  have o1: "w_stdout w1 = [AdapterInfo]"
    by (simp add: w1_def issue_def print_out_def initial_world_def)
  obtain w2 where sh: "GetAllShaders env (GetGPUBuffers w1 size') = Inr w2"
      "w_mem w2 = w_mem (GetGPUBuffers w1 size')" "w_stdout w2 = w_stdout (GetGPUBuffers w1 size')"
    using GetAllShaders_ok [of env "GetGPUBuffers w1 size'"] su unfolding setup_answers_def by blast
  have a2: "allocated size' w2"
    using allocated_cong [OF sh(2)] allocated_GetGPUBuffers by simp
  obtain w3 where un: "InitializeUniforms env w2 size' = Inr w3" "allocated size' w3"
      "w_stdout w3 = w_stdout w2"
    using InitializeUniforms_ok [of env size' w2] su a2 unfolding setup_answers_def by blast
  have o3: "w_stdout w3 = [AdapterInfo]"
    by (simp add: un(3) sh(3) w_stdout_GetGPUBuffers o1)
  obtain passed diags w4 where rt: "RunTest (d_trials env) size' batchSize w3 = Inr w4"
      "w_stdout w4 = w_stdout w3 @ diags @
         [Summary passed batchSize, if passed = batchSize then ALL_TESTS_PASSED else TEST_FAILED]"
    using RunTest_returns [OF S un(2) resp] by blast
  have l': "(1 + length args \<noteq> 3) = False" using l by simp
  have m: "main env program args = Inr (EXIT_SUCCESS, w4)"
    by (simp only: main_def l' if_False p1 p2 c sh(1) un(1) rt(1) option.case sum.case)
  show "\<exists>w passed diags.
         main env program args = Inr (EXIT_SUCCESS, w) \<and>
         w_stdout w = AdapterInfo # diags @
           [Summary passed batchSize,
            if passed = batchSize then ALL_TESTS_PASSED else TEST_FAILED]"
    using m rt(2) unfolding o3 by (intro exI [of _ w4] exI [of _ passed] exI [of _ diags]) simp
qed

text \<open>
  C4. The specification asks that an argument which is not a base-10 unsigned integer
  within its bound ends the program with an error and the failure status before any
  device negotiation, and the message of \<open>main\<close> says the same
  (\<open>Expected uint32_t less than 65536\<close>). The code does not do this for every such
  argument:
  \<open>-18446744073709551615\<close> is not an unsigned integer, yet \<open>strtoul\<close> negates its value
  in \<open>unsigned long\<close> to 1, no check of \<open>parse\<close> looks at the sign, and \<open>main\<close> goes
  on with test size 1: it negotiates the device, runs the trial and returns the success
  status.
\<close>

theorem main_accepts_negated_argument:
  "\<not> spec_admitted 65535 ''-18446744073709551615'' \<and>
   (\<exists>w. main (sample_device [1, 5, 0, 0] True) ''harness'' [''-18446744073709551615'', ''1''] =
           Inr (EXIT_SUCCESS, w) \<and>
        w_stdout w = [AdapterInfo,
                      MessagePassing 0 0 5 0 (Some 0x40000400) (Some 0x400) 0xFFFF 0x80000000,
                      Summary 0 1, TEST_FAILED])"
proof (intro conjI)
  show "\<not> spec_admitted 65535 ''-18446744073709551615''"
    by (simp add: spec_admitted_def spec_unsigned_integer_def isdigit_def)
  show "\<exists>w. main (sample_device [1, 5, 0, 0] True) ''harness'' [''-18446744073709551615'', ''1''] =
           Inr (EXIT_SUCCESS, w) \<and>
        w_stdout w = [AdapterInfo,
                      MessagePassing 0 0 5 0 (Some 0x40000400) (Some 0x400) 0xFFFF 0x80000000,
                      Summary 0 1, TEST_FAILED]"
    by (simp add: main_def parse_negated_example parse_1 GetGPUContext_def GetGPUBuffers_def
      GetAllShaders_def
      CreateShaderFromSource_def InitializeUniforms_def RunTest_def RunTest_loop.simps
      Validate_def Validate_tiles.simps Validate_threads.simps CopyAndReadbackSync_def
      CopyBufferSync_def ReadbackSync_def QueueSync_def device_copy_def copy_words_def
      memcpy_words_def vec_at_def CheckError_def shr32_def device_dispatch_def overwrite_def
      sample_device_def sample_trial_def initial_world_def issue_def print_out_def
      print_err_def await_Fires Let_def buffer_words_def compilation_log_def shader_path_def
      SPLIT_THREADS_def ERROR_TYPE_MESSAGE_def ERROR_TYPE_SHUFFLE_def FLAG_NOT_READY_def
      FLAG_READY_def FLAG_INCLUSIVE_def VALUE_MASK_def)
qed

end
